theory Spec2Isabelle
  imports Main "HOL-Library.AList" "HOL-Library.Sublist"
begin

section \<open>Plugins, errors and the marker engine\<close>

text \<open>
  The package \<open>genutils\<close> composes a command line tool from named generators and
  output rules. Generators and output rules are values supplied by the caller; the
  package stores them and hands them to the marker engine. They are modelled as opaque
  tags. The two output rules that \<open>New\<close> installs are constants of the engine.
\<close>

datatype Generator = Generator string

datatype OutputRule = OutputToDirectory string | OutputToStdout | OutputRule string

type_synonym DefinitionHelp = string

text \<open>
  Go errors. \<open>ErrorString\<close> is the value of \<open>errors.New\<close> (and stands for any error of
  a collaborator that has no \<open>Unwrap\<close> and no \<open>Is\<close> method), \<open>WrapError\<close> is an error
  that wraps another one and has an \<open>Unwrap\<close> method, and \<open>NoUsageError\<close> is the struct
  \<open>noUsageError{error}\<close> of the package: its embedded interface is \<open>None\<close> in the
  zero value. Embedding the interface \<open>error\<close> promotes \<open>Error()\<close> only, so
  \<open>noUsageError\<close> has neither \<open>Unwrap\<close> nor \<open>Is\<close>.
\<close>

datatype go_error =
    ErrorString string
  | WrapError string go_error
  | NoUsageError "go_error option"

datatype panic = PanicError go_error | NilMapAssignment | IndexOutOfRange

datatype TargetType = DescribesPackage | DescribesType | DescribesField

datatype marker_output =
    GeneratorOutput Generator
  | OutputRuleOutput OutputRule
  | OptionOutput string

record Definition =
  Name :: string
  Target :: TargetType
  Output :: marker_output

text \<open>
  Modelled from the spec: the marker registry of the annotation engine, which is not
  part of this repository. It holds the registered definitions by name and the help
  attached to definitions. Registering a name that the registry already holds fails.
\<close>

record Registry =
  registry :: "(string \<times> Definition) list"
  helpFor :: "(Definition \<times> DefinitionHelp) list"

definition marker_names :: "Registry \<Rightarrow> string list" where
  "marker_names r = map fst (registry r)"

definition Register :: "Registry \<Rightarrow> Definition \<Rightarrow> go_error + Registry" where
  "Register r d =
     (if Name d \<in> set (marker_names r)
      then Inl (ErrorString (''marker already registered: '' @ Name d))
      else Inr (r\<lparr>registry := registry r @ [(Name d, d)]\<rparr>))"

definition AddHelp :: "Registry \<Rightarrow> Definition \<Rightarrow> DefinitionHelp \<Rightarrow> Registry" where
  "AddHelp r d h = r\<lparr>helpFor := AList.update d h (helpFor r)\<rparr>"

text \<open>
  What the engine and the plugins decide, as parameters: whether a plugin has the
  \<open>HasHelp\<close> capability and what its \<open>Help()\<close> returns (\<open>None\<close>: no capability,
  \<open>Some None\<close>: a nil help), whether a marker schema can be derived from a plugin
  value, and the engine's own option markers.

  Modelled from the spec: \<open>markers.MakeDefinition\<close> derives a definition with the
  given name and target that carries the plugin as its schema, or fails;
  \<open>markers.Must\<close> panics on that failure.
\<close>

record engine =
  generator_help :: "Generator \<Rightarrow> DefinitionHelp option option"
  rule_help :: "OutputRule \<Rightarrow> DefinitionHelp option option"
  schema_error :: "marker_output \<Rightarrow> go_error option"
  options_markers :: "Definition list"

definition MakeDefinition ::
  "engine \<Rightarrow> string \<Rightarrow> TargetType \<Rightarrow> marker_output \<Rightarrow> go_error + Definition" where
  "MakeDefinition eng nm tgt out =
     (case schema_error eng out of
        Some err \<Rightarrow> Inl err
      | None \<Rightarrow> Inr \<lparr>Name = nm, Target = tgt, Output = out\<rparr>)"

definition Must :: "go_error + 'a \<Rightarrow> panic + 'a" where
  "Must r = (case r of Inl err \<Rightarrow> Inl (PanicError err) | Inr d \<Rightarrow> Inr d)"

fun RegisterAll :: "Registry \<Rightarrow> Definition list \<Rightarrow> go_error + Registry" where
  "RegisterAll r [] = Inr r"
| "RegisterAll r (d # ds) =
     (case Register r d of Inl err \<Rightarrow> Inl err | Inr r' \<Rightarrow> RegisterAll r' ds)"

text \<open>
  Modelled from the spec: \<open>genall.RegisterOptionsMarkers\<close> registers the engine's
  built-in option markers and returns the first failure.
\<close>

definition RegisterOptionsMarkers :: "engine \<Rightarrow> Registry \<Rightarrow> go_error + Registry" where
  "RegisterOptionsMarkers eng r = RegisterAll r (options_markers eng)"

section \<open>The configuration and its builder\<close>

text \<open>
  A Go map is a reference: several \<open>Cmd\<close> values, and the caller, can hold the same
  map. The store keeps the contents of every map and registry by address. A map
  reference is \<open>None\<close> for the nil map (ranging over it visits nothing, assigning to
  it panics). The contents of a map are an association list with distinct keys; its
  order stands for the order in which \<open>range\<close> visits the entries.
\<close>

record heap =
  generator_maps :: "nat \<Rightarrow> (string \<times> Generator) list"
  rule_maps :: "nat \<Rightarrow> (string \<times> OutputRule) list"
  registries :: "nat \<Rightarrow> Registry"
  fresh :: nat

text \<open>
  The configuration. Its mappings are references into the store; its registry is a
  pointer that is never nil in a configuration that \<open>New\<close> made.
\<close>

record Cmd =
  name :: string
  description :: string
  helper :: string
  generators :: "nat option"
  markerRegistry :: nat
  outputRules :: "nat option"

definition entries :: "(nat \<Rightarrow> (string \<times> 'v) list) \<Rightarrow> nat option \<Rightarrow> (string \<times> 'v) list" where
  "entries store ref = (case ref of None \<Rightarrow> [] | Some a \<Rightarrow> store a)"

text \<open>
  \<open>type Builder func() Cmd\<close>: calling the closure runs on the store and can panic.
\<close>

type_synonym Builder = "heap \<Rightarrow> panic + (Cmd \<times> heap)"

definition New :: "string \<Rightarrow> Builder" where
  "New n = (\<lambda>h.
     let a = fresh h in
     Inr (\<lparr>name = n, description = [], helper = [],
            generators = Some a, markerRegistry = a, outputRules = Some a\<rparr>,
          h\<lparr>generator_maps := (generator_maps h)(a := []),
            rule_maps := (rule_maps h)
              (a := [(''dir'', OutputToDirectory []), (''stdout'', OutputToStdout)]),
            registries := (registries h)(a := \<lparr>registry = [], helpFor = []\<rparr>),
            fresh := Suc a\<rparr>))"

definition WithDescription :: "Builder \<Rightarrow> string \<Rightarrow> Builder" where
  "WithDescription b d = (\<lambda>h.
     case b h of
       Inl p \<Rightarrow> Inl p
     | Inr (g, h') \<Rightarrow> Inr (g\<lparr>description := d\<rparr>, h'))"

definition WithHelper :: "Builder \<Rightarrow> string \<Rightarrow> Builder" where
  "WithHelper b s = (\<lambda>h.
     case b h of
       Inl p \<Rightarrow> Inl p
     | Inr (g, h') \<Rightarrow> Inr (g\<lparr>helper := s\<rparr>, h'))"

definition WithGenerator :: "Builder \<Rightarrow> string \<Rightarrow> Generator \<Rightarrow> Builder" where
  "WithGenerator b key generator = (\<lambda>h.
     case b h of
       Inl p \<Rightarrow> Inl p
     | Inr (g, h') \<Rightarrow>
         (case generators g of
            None \<Rightarrow> Inl NilMapAssignment
          | Some a \<Rightarrow>
              Inr (g, h'\<lparr>generator_maps := (generator_maps h')
                         (a := AList.update key generator (generator_maps h' a))\<rparr>)))"

definition WithGenerators :: "Builder \<Rightarrow> nat option \<Rightarrow> Builder" where
  "WithGenerators b m = (\<lambda>h.
     case b h of
       Inl p \<Rightarrow> Inl p
     | Inr (g, h') \<Rightarrow> Inr (g\<lparr>generators := m\<rparr>, h'))"

definition WithOutputRule :: "Builder \<Rightarrow> string \<Rightarrow> OutputRule \<Rightarrow> Builder" where
  "WithOutputRule b key outputRule = (\<lambda>h.
     case b h of
       Inl p \<Rightarrow> Inl p
     | Inr (g, h') \<Rightarrow>
         (case outputRules g of
            None \<Rightarrow> Inl NilMapAssignment
          | Some a \<Rightarrow>
              Inr (g, h'\<lparr>rule_maps := (rule_maps h')
                         (a := AList.update key outputRule (rule_maps h' a))\<rparr>)))"

definition WithOutputRules :: "Builder \<Rightarrow> nat option \<Rightarrow> Builder" where
  "WithOutputRules b m = (\<lambda>h.
     case b h of
       Inl p \<Rightarrow> Inl p
     | Inr (g, h') \<Rightarrow> Inr (g\<lparr>outputRules := m\<rparr>, h'))"

definition Apply :: "Builder \<Rightarrow> heap \<Rightarrow> panic + (Cmd \<times> heap)" where
  "Apply b h = b h"

section \<open>Registration\<close>

text \<open>
  The three loops of \<open>register\<close> run the same body on a marker name and a plugin:
  make the definition (\<open>Must\<close> panics when that fails), register it (a failure
  panics), and attach the plugin's help when it has the capability and the help is
  not nil. Go visits the entries of a map in an order of its choice; the loops here
  follow the list that holds the entries, and every property below is stated for
  all such lists.
\<close>

definition attach_help ::
  "DefinitionHelp option option \<Rightarrow> Definition \<Rightarrow> Registry \<Rightarrow> Registry" where
  "attach_help cap d r =
     (case cap of
        None \<Rightarrow> r
      | Some None \<Rightarrow> r
      | Some (Some h) \<Rightarrow> AddHelp r d h)"

definition register_marker ::
  "engine \<Rightarrow> string \<Rightarrow> marker_output \<Rightarrow> DefinitionHelp option option \<Rightarrow> Registry
     \<Rightarrow> panic + Registry" where
  "register_marker eng nm out cap r =
     (case Must (MakeDefinition eng nm DescribesPackage out) of
        Inl p \<Rightarrow> Inl p
      | Inr d \<Rightarrow>
          (case Register r d of
             Inl err \<Rightarrow> Inl (PanicError err)
           | Inr r' \<Rightarrow> Inr (attach_help cap d r')))"

text \<open>
  The names of the output markers: \<open>fmt.Sprintf("output:%s:%s", genName, ruleName)\<close>
  in the loop over the generators, \<open>"output:" + ruleName\<close> in the loop of the
  defaults.
\<close>

definition generator_rule_marker :: "string \<Rightarrow> string \<Rightarrow> string" where
  "generator_rule_marker genName ruleName = ''output:'' @ genName @ '':'' @ ruleName"

definition default_rule_marker :: "string \<Rightarrow> string" where
  "default_rule_marker ruleName = ''output:'' @ ruleName"

fun register_generator_rules ::
  "engine \<Rightarrow> string \<Rightarrow> (string \<times> OutputRule) list \<Rightarrow> Registry \<Rightarrow> panic + Registry" where
  "register_generator_rules eng genName [] r = Inr r"
| "register_generator_rules eng genName ((ruleName, rule) # rest) r =
     (case register_marker eng (generator_rule_marker genName ruleName)
             (OutputRuleOutput rule) (rule_help eng rule) r of
        Inl p \<Rightarrow> Inl p
      | Inr r' \<Rightarrow> register_generator_rules eng genName rest r')"

fun register_generators ::
  "engine \<Rightarrow> (string \<times> OutputRule) list \<Rightarrow> (string \<times> Generator) list \<Rightarrow> Registry
     \<Rightarrow> panic + Registry" where
  "register_generators eng rules [] r = Inr r"
| "register_generators eng rules ((genName, generator) # rest) r =
     (case register_marker eng genName (GeneratorOutput generator)
             (generator_help eng generator) r of
        Inl p \<Rightarrow> Inl p
      | Inr r1 \<Rightarrow>
          (case register_generator_rules eng genName rules r1 of
             Inl p \<Rightarrow> Inl p
           | Inr r2 \<Rightarrow> register_generators eng rules rest r2))"

fun register_default_rules ::
  "engine \<Rightarrow> (string \<times> OutputRule) list \<Rightarrow> Registry \<Rightarrow> panic + Registry" where
  "register_default_rules eng [] r = Inr r"
| "register_default_rules eng ((ruleName, rule) # rest) r =
     (case register_marker eng (default_rule_marker ruleName)
             (OutputRuleOutput rule) (rule_help eng rule) r of
        Inl p \<Rightarrow> Inl p
      | Inr r' \<Rightarrow> register_default_rules eng rest r')"

definition register :: "engine \<Rightarrow> Cmd \<Rightarrow> heap \<Rightarrow> panic + heap" where
  "register eng g h =
     (let rules = entries (rule_maps h) (outputRules g) in
      case register_generators eng rules (entries (generator_maps h) (generators g))
             (registries h (markerRegistry g)) of
        Inl p \<Rightarrow> Inl p
      | Inr r1 \<Rightarrow>
          (case register_default_rules eng rules r1 of
             Inl p \<Rightarrow> Inl p
           | Inr r2 \<Rightarrow>
               (case RegisterOptionsMarkers eng r2 of
                  Inl err \<Rightarrow> Inl (PanicError err)
                | Inr r3 \<Rightarrow>
                    Inr (h\<lparr>registries := (registries h)(markerRegistry g := r3)\<rparr>))))"

section \<open>The help renderer\<close>

text \<open>
  The collaborators of the dispatcher are outside the repository: the query that
  groups the markers of a registry by category, the resolution of the raw options
  into a runtime or a registry, the run of the selected generators, and the output
  streams. They are parameters of the model. \<open>write_error\<close> tells whether writing a
  text to a stream fails; the trace of an invocation lists the texts that were
  written, in order, and the calls into the generation engine.
\<close>

datatype SortGroup = SortByCategory | SortByOption

record CategoryDoc =
  Category :: string
  Markers :: "string list"

datatype stream = Stdout | Stderr

datatype output_text =
    VersionText
  | UsageText
  | OptionsHeader
  | JsonDocument "CategoryDoc list"
  | MarkersDetails bool string "string list"
  | MarkersSummary string "string list"
  | HintLine

datatype event =
    Write stream output_text
  | CallFromOptions "string list"
  | CallRegistryFromOptions "string list"
  | RunGenerators

record Runtime =
  Generators :: "Generator list"
  hadErrs :: bool

record collaborators =
  ByCategory :: "Registry \<Rightarrow> SortGroup \<Rightarrow> CategoryDoc list"
  FromOptions :: "Registry \<Rightarrow> string list \<Rightarrow> go_error + Runtime"
  RegistryFromOptions :: "Registry \<Rightarrow> string list \<Rightarrow> go_error + Registry"
  write_error :: "stream \<Rightarrow> output_text \<Rightarrow> go_error option"

definition summaryHelp :: nat where "summaryHelp = 1"
definition detailedHelp :: nat where "detailedHelp = 2"
definition fullHelp :: nat where "fullHelp = 3"
definition jsonHelp :: nat where "jsonHelp = 4"

fun details_loop ::
  "collaborators \<Rightarrow> bool \<Rightarrow> CategoryDoc list \<Rightarrow> event list \<times> go_error option" where
  "details_loop env fullDetail [] = ([], None)"
| "details_loop env fullDetail (cat # cats) =
     (if Category cat = [] then details_loop env fullDetail cats
      else
        (let contents = MarkersDetails fullDetail (Category cat) (Markers cat) in
         case write_error env Stderr contents of
           Some err \<Rightarrow> ([], Some err)
         | None \<Rightarrow>
             (let (t, res) = details_loop env fullDetail cats
              in (Write Stderr contents # t, res))))"

fun summary_loop ::
  "collaborators \<Rightarrow> CategoryDoc list \<Rightarrow> event list \<times> go_error option" where
  "summary_loop env [] = ([], None)"
| "summary_loop env (cat # cats) =
     (if Category cat = [] then summary_loop env cats
      else
        (let contents = MarkersSummary (Category cat) (Markers cat) in
         case write_error env Stderr contents of
           Some err \<Rightarrow> ([], Some err)
         | None \<Rightarrow>
             (let (t, res) = summary_loop env cats
              in (Write Stderr contents # t, res))))"

definition helpForLevels ::
  "collaborators \<Rightarrow> nat \<Rightarrow> Registry \<Rightarrow> SortGroup \<Rightarrow> event list \<times> go_error option" where
  "helpForLevels env lvl reg sorter =
     (let helpInfo = ByCategory env reg sorter in
      if lvl = jsonHelp then
        (case write_error env Stdout (JsonDocument helpInfo) of
           Some err \<Rightarrow> ([], Some err)
         | None \<Rightarrow> ([Write Stdout (JsonDocument helpInfo)], None))
      else if lvl = detailedHelp \<or> lvl = fullHelp then
        details_loop env (lvl = fullHelp) helpInfo
      else if lvl = summaryHelp then summary_loop env helpInfo
      else ([], None))"

definition printMarkerDocs ::
  "collaborators \<Rightarrow> Registry \<Rightarrow> string list \<Rightarrow> nat \<Rightarrow> event list \<times> go_error option" where
  "printMarkerDocs env reg rawOptions lvl =
     (case RegistryFromOptions env reg rawOptions of
        Inl err \<Rightarrow> ([CallRegistryFromOptions rawOptions], Some err)
      | Inr reg' \<Rightarrow>
          (let (t, res) = helpForLevels env lvl reg' SortByCategory
           in (CallRegistryFromOptions rawOptions # t, res)))"

section \<open>The command dispatcher\<close>

text \<open>
  \<open>errors.Is\<close> of the Go library, on non-nil errors: an error matches the target when
  it is equal to it, or when an error it wraps (through \<open>Unwrap\<close>) matches. None of the
  errors here has an \<open>Is\<close> method.
\<close>

fun errors_Is :: "go_error \<Rightarrow> go_error \<Rightarrow> bool" where
  "errors_Is (WrapError s inner) target =
     (WrapError s inner = target \<or> errors_Is inner target)"
| "errors_Is err target = (err = target)"

text \<open>
  The three variables that the flags of the command set and that the closures of
  \<open>cmd\<close> capture. The command line library parses the arguments into them (each
  repetition of a counting flag adds one) and passes the remaining arguments to
  \<open>RunE\<close>; an invocation is given by the parsed flags and these arguments.
\<close>

record flags =
  showVersion :: bool
  helpLevel :: nat
  whichLevel :: nat

text \<open>
  The usage function that \<open>cmd\<close> installs: the previous usage text, then the options
  at the help level, which it sets to the summary level when it is zero.
\<close>

definition Usage ::
  "collaborators \<Rightarrow> Registry \<Rightarrow> flags \<Rightarrow> (event list \<times> go_error option) \<times> flags" where
  "Usage env reg fl =
     (case write_error env Stderr UsageText of
        Some err \<Rightarrow> (([], Some err), fl)
      | None \<Rightarrow>
          (let fl' = (if helpLevel fl = 0 then fl\<lparr>helpLevel := summaryHelp\<rparr> else fl) in
           case write_error env Stderr OptionsHeader of
             Some err \<Rightarrow> (([Write Stderr UsageText], Some err), fl')
           | None \<Rightarrow>
               (let (t, res) = helpForLevels env (helpLevel fl') reg SortByOption
                in ((Write Stderr UsageText # Write Stderr OptionsHeader # t, res), fl'))))"

definition RunE ::
  "collaborators \<Rightarrow> Cmd \<Rightarrow> heap \<Rightarrow> flags \<Rightarrow> string list
     \<Rightarrow> (event list \<times> go_error option) \<times> flags" where
  "RunE env c h fl rawOpts =
     (if showVersion fl then (([Write Stdout VersionText], None), fl)
      else if helpLevel fl > 0 then Usage env (registries h (markerRegistry c)) fl
      else if whichLevel fl > 0 then
        (printMarkerDocs env (registries h (markerRegistry c)) rawOpts (whichLevel fl), fl)
      else
        (case FromOptions env (registries h (markerRegistry c)) rawOpts of
           Inl err \<Rightarrow> (([CallFromOptions rawOpts], Some err), fl)
         | Inr runtime \<Rightarrow>
             if length (Generators runtime) = 0 then
               (([CallFromOptions rawOpts],
                 Some (ErrorString ''no generators specified'')), fl)
             else if hadErrs runtime then
               (([CallFromOptions rawOpts, RunGenerators],
                 Some (NoUsageError
                   (Some (ErrorString ''not all generators ran successfully'')))), fl)
             else (([CallFromOptions rawOpts, RunGenerators], None), fl)))"

datatype exit = Returned | Exited nat | Panicked panic

fun exit_status :: "exit \<Rightarrow> nat" where
  "exit_status Returned = 0"
| "exit_status (Exited n) = n"
| "exit_status (Panicked p) = 2"

text \<open>
  \<open>Cmd.Run\<close>: registration, then the invocation. \<open>Execute\<close> of the command line
  library calls \<open>RunE\<close> on the parsed invocation and returns its error as it is;
  the library prints no usage by itself (\<open>SilenceUsage\<close>). What the library does
  before \<open>RunE\<close> (rejecting an unknown flag, its own \<open>--help\<close>) and the error line
  it prints are not part of the model. A panic ends the process with status 2.
\<close>

definition Run ::
  "engine \<Rightarrow> collaborators \<Rightarrow> Cmd \<Rightarrow> heap \<Rightarrow> flags \<Rightarrow> string list \<Rightarrow> event list \<times> exit" where
  "Run eng env c h fl rawOpts =
     (case register eng c h of
        Inl p \<Rightarrow> ([], Panicked p)
      | Inr h' \<Rightarrow>
          (case RunE env c h' fl rawOpts of
             ((t, None), fl') \<Rightarrow> (t, Returned)
           | ((t, Some err), fl') \<Rightarrow>
               (let noUsage = errors_Is err (NoUsageError None);
                    u = (if \<not> noUsage
                         then fst (Usage env (registries h' (markerRegistry c)) fl')
                         else ([], None))
                in case snd u of
                     Some uerr \<Rightarrow> (t @ fst u, Panicked (PanicError uerr))
                   | None \<Rightarrow>
                       (case write_error env Stderr HintLine of
                          Some werr \<Rightarrow> (t @ fst u, Exited 1)
                        | None \<Rightarrow> (t @ fst u @ [Write Stderr HintLine], Exited 1)))))"

section \<open>Title\<close>

text \<open>
  \<open>Title\<close> converts its argument to a slice of runes, upper-cases the first one and
  converts back. A Go string is a sequence of bytes; the conversion to runes decodes
  UTF-8 and yields \<open>RuneError\<close> for every byte that starts no valid encoding, and the
  conversion back encodes every rune, \<open>RuneError\<close> in place of a value that is no
  Unicode scalar. Bytes are numbers below 256 here, runes are integers.
  \<open>unicode.ToUpper\<close> is a table of the Go library and a parameter of \<open>Title\<close>.
\<close>

definition RuneError :: int where
  "RuneError = 65533"

definition continuation :: "nat \<Rightarrow> bool" where
  "continuation b = (128 \<le> b \<and> b \<le> 191)"

definition second_of_three :: "nat \<Rightarrow> nat \<Rightarrow> bool" where
  "second_of_three b0 b1 =
     (if b0 = 224 then 160 \<le> b1 \<and> b1 \<le> 191
      else if b0 = 237 then 128 \<le> b1 \<and> b1 \<le> 159
      else continuation b1)"

definition second_of_four :: "nat \<Rightarrow> nat \<Rightarrow> bool" where
  "second_of_four b0 b1 =
     (if b0 = 240 then 144 \<le> b1 \<and> b1 \<le> 191
      else if b0 = 244 then 128 \<le> b1 \<and> b1 \<le> 143
      else continuation b1)"

text \<open>The first rune of the bytes \<open>b0 # bs\<close>, and the bytes after it.\<close>

definition decode_rune :: "nat \<Rightarrow> nat list \<Rightarrow> int \<times> nat list" where
  "decode_rune b0 bs =
     (if b0 < 128 then (int b0, bs)
      else if 194 \<le> b0 \<and> b0 \<le> 223 then
        (case bs of
           b1 # rest \<Rightarrow>
             if continuation b1 then (int ((b0 mod 32) * 64 + b1 mod 64), rest)
             else (RuneError, bs)
         | _ \<Rightarrow> (RuneError, bs))
      else if 224 \<le> b0 \<and> b0 \<le> 239 then
        (case bs of
           b1 # b2 # rest \<Rightarrow>
             if second_of_three b0 b1 \<and> continuation b2
             then (int ((b0 mod 16) * 4096 + (b1 mod 64) * 64 + b2 mod 64), rest)
             else (RuneError, bs)
         | _ \<Rightarrow> (RuneError, bs))
      else if 240 \<le> b0 \<and> b0 \<le> 244 then
        (case bs of
           b1 # b2 # b3 # rest \<Rightarrow>
             if second_of_four b0 b1 \<and> continuation b2 \<and> continuation b3
             then (int ((b0 mod 8) * 262144 + (b1 mod 64) * 4096
                        + (b2 mod 64) * 64 + b3 mod 64), rest)
             else (RuneError, bs)
         | _ \<Rightarrow> (RuneError, bs))
      else (RuneError, bs))"

function runes_of_bytes :: "nat list \<Rightarrow> int list" where
  "runes_of_bytes [] = []"
| "runes_of_bytes (b0 # bs) =
     (case decode_rune b0 bs of (r, rest) \<Rightarrow> r # runes_of_bytes rest)"
  by pat_completeness auto
termination
proof (relation "measure length")
  fix b0 :: nat and bs :: "nat list" and r :: int and rest :: "nat list"
  assume "(r, rest) = decode_rune b0 bs"
  then have "decode_rune b0 bs = (r, rest)" by simp
  then have "length rest \<le> length bs"
    by (auto simp: decode_rune_def split: list.splits if_splits)
  then show "(rest, b0 # bs) \<in> measure length" by simp
qed simp

definition valid_rune :: "int \<Rightarrow> bool" where
  "valid_rune r = (0 \<le> r \<and> r \<le> 1114111 \<and> \<not> (55296 \<le> r \<and> r \<le> 57343))"

definition encode_rune :: "int \<Rightarrow> nat list" where
  "encode_rune r =
     (let n = nat r in
      if 0 \<le> r \<and> r < 128 then [n]
      else if 0 \<le> r \<and> r < 2048 then [192 + n div 64, 128 + n mod 64]
      else if \<not> valid_rune r then [239, 191, 189]
      else if r < 65536 then
        [224 + n div 4096, 128 + (n div 64) mod 64, 128 + n mod 64]
      else
        [240 + n div 262144, 128 + (n div 4096) mod 64, 128 + (n div 64) mod 64,
         128 + n mod 64])"

text \<open>What a rune is after it was encoded and decoded again.\<close>

definition sanitize :: "int \<Rightarrow> int" where
  "sanitize r = (if valid_rune r then r else RuneError)"

definition runes_of :: "string \<Rightarrow> int list" where
  "runes_of s = runes_of_bytes (map of_char s)"

definition string_of :: "int list \<Rightarrow> string" where
  "string_of rs = map char_of (concat (map encode_rune rs))"

definition Title :: "(int \<Rightarrow> int) \<Rightarrow> string \<Rightarrow> panic + string" where
  "Title ToUpper s =
     (case runes_of s of
        [] \<Rightarrow> Inl IndexOutOfRange
      | r0 # rest \<Rightarrow> Inr (string_of (ToUpper r0 # rest)))"

definition GeneratedFilename :: "string \<Rightarrow> string \<Rightarrow> string" where
  "GeneratedFilename pfx nm = ''zz_generated.'' @ pfx @ ''.'' @ nm @ ''.go''"

section \<open>Vocabulary of the properties\<close>

text \<open>
  A chain of Builder method calls, as data: one constructor per method, applied to
  the builder from left to right.
\<close>

datatype step =
    Description string
  | Helper string
  | AddGenerator string Generator
  | SetGenerators "nat option"
  | AddOutputRule string OutputRule
  | SetOutputRules "nat option"

fun apply_step :: "Builder \<Rightarrow> step \<Rightarrow> Builder" where
  "apply_step b (Description d) = WithDescription b d"
| "apply_step b (Helper s) = WithHelper b s"
| "apply_step b (AddGenerator k g) = WithGenerator b k g"
| "apply_step b (SetGenerators m) = WithGenerators b m"
| "apply_step b (AddOutputRule k r) = WithOutputRule b k r"
| "apply_step b (SetOutputRules m) = WithOutputRules b m"

definition chain :: "Builder \<Rightarrow> step list \<Rightarrow> Builder" where
  "chain b ss = foldl apply_step b ss"

text \<open>The methods that do not replace a whole mapping.\<close>

fun individual :: "step \<Rightarrow> bool" where
  "individual (SetGenerators m) = False"
| "individual (SetOutputRules m) = False"
| "individual s = True"

text \<open>
  What freezing a builder gives: the entries of the output-rule mapping and of the
  generator mapping of the frozen configuration, and the store after the freeze.
\<close>

definition frozen_rules :: "Builder \<Rightarrow> heap \<Rightarrow> panic + (string \<times> OutputRule) list" where
  "frozen_rules b h =
     (case Apply b h of
        Inl p \<Rightarrow> Inl p
      | Inr (c, h') \<Rightarrow> Inr (entries (rule_maps h') (outputRules c)))"

definition frozen_generators :: "Builder \<Rightarrow> heap \<Rightarrow> panic + (string \<times> Generator) list" where
  "frozen_generators b h =
     (case Apply b h of
        Inl p \<Rightarrow> Inl p
      | Inr (c, h') \<Rightarrow> Inr (entries (generator_maps h') (generators c)))"

definition store_after :: "Builder \<Rightarrow> heap \<Rightarrow> panic + heap" where
  "store_after b h = (case Apply b h of Inl p \<Rightarrow> Inl p | Inr (c, h') \<Rightarrow> Inr h')"

text \<open>A mapping of the caller's is nil or lives at an address in use.\<close>

definition allocated :: "heap \<Rightarrow> nat option \<Rightarrow> bool" where
  "allocated h m = (case m of None \<Rightarrow> True | Some a \<Rightarrow> a < fresh h)"

definition generator_names :: "heap \<Rightarrow> Cmd \<Rightarrow> string list" where
  "generator_names h g = map fst (entries (generator_maps h) (generators g))"

definition rule_names :: "heap \<Rightarrow> Cmd \<Rightarrow> string list" where
  "rule_names h g = map fst (entries (rule_maps h) (outputRules g))"

text \<open>
  The marker names that \<open>register\<close> derives from a configuration, in the order of
  registration: per generator its own name and one name per output rule, then one
  default name per output rule, then the engine's option markers.
\<close>

definition generator_markers :: "string list \<Rightarrow> string \<Rightarrow> string list" where
  "generator_markers rs g = g # map (generator_rule_marker g) rs"

definition derived_markers :: "engine \<Rightarrow> heap \<Rightarrow> Cmd \<Rightarrow> string list" where
  "derived_markers eng h g =
     concat (map (generator_markers (rule_names h g)) (generator_names h g))
     @ map default_rule_marker (rule_names h g)
     @ map Name (options_markers eng)"

text \<open>
  The categories that the renderer prints, and the block it writes for one of them
  to the diagnostic stream.
\<close>

definition named :: "CategoryDoc list \<Rightarrow> CategoryDoc list" where
  "named cats = filter (\<lambda>cat. Category cat \<noteq> []) cats"

definition summary_block :: "CategoryDoc \<Rightarrow> event" where
  "summary_block cat = Write Stderr (MarkersSummary (Category cat) (Markers cat))"

definition details_block :: "bool \<Rightarrow> CategoryDoc \<Rightarrow> event" where
  "details_block fullDetail cat =
     Write Stderr (MarkersDetails fullDetail (Category cat) (Markers cat))"

fun is_write :: "event \<Rightarrow> bool" where
  "is_write (Write s t) = True"
| "is_write e = False"

fun is_marker_doc :: "event \<Rightarrow> bool" where
  "is_marker_doc (Write s (JsonDocument docs)) = True"
| "is_marker_doc (Write s (MarkersDetails fullDetail cat ms)) = True"
| "is_marker_doc (Write s (MarkersSummary cat ms)) = True"
| "is_marker_doc e = False"

text \<open>
  The contents of a generator mapping of the caller's, at address \<open>a\<close>, after a
  builder was frozen.
\<close>

definition caller_generators_after ::
  "Builder \<Rightarrow> heap \<Rightarrow> nat \<Rightarrow> panic + (string \<times> Generator) list" where
  "caller_generators_after b h a =
     (case Apply b h of Inl p \<Rightarrow> Inl p | Inr (c, h') \<Rightarrow> Inr (generator_maps h' a))"

text \<open>
  The registry gained exactly the names \<open>ns\<close>, each once, none of which it held.
\<close>

definition extends :: "Registry \<Rightarrow> Registry \<Rightarrow> string list \<Rightarrow> bool" where
  "extends r r' ns =
     (marker_names r' = marker_names r @ ns \<and> distinct ns
      \<and> set (marker_names r) \<inter> set ns = {})"

text \<open>
  A configuration built by \<open>New\<close> on the store \<open>h\<close>: its mappings and its registry
  are the objects that \<open>New\<close> allocated, and nothing else of the store changed.
\<close>

definition built_on :: "heap \<Rightarrow> Cmd \<Rightarrow> heap \<Rightarrow> bool" where
  "built_on h c h1 =
     (generators c = Some (fresh h) \<and> outputRules c = Some (fresh h)
      \<and> markerRegistry c = fresh h \<and> fresh h1 = Suc (fresh h)
      \<and> (\<forall>a. a \<noteq> fresh h \<longrightarrow>
            generator_maps h1 a = generator_maps h a
          \<and> rule_maps h1 a = rule_maps h a
          \<and> registries h1 a = registries h a))"

text \<open>An exit of the process that reports failure.\<close>

definition failed :: "exit \<Rightarrow> bool" where
  "failed x = (exit_status x \<noteq> 0)"

subsection \<open>A small tool, for concrete instances\<close>

definition demo_engine :: engine where
  "demo_engine =
     \<lparr>generator_help = (\<lambda>g. None),
      rule_help = (\<lambda>r. Some (Some ''output rule'')),
      schema_error = (\<lambda>out. None),
      options_markers =
        [\<lparr>Name = ''paths'', Target = DescribesPackage, Output = OptionOutput ''paths''\<rparr>]\<rparr>"

definition empty_heap :: heap where
  "empty_heap =
     \<lparr>generator_maps = (\<lambda>a. []), rule_maps = (\<lambda>a. []),
      registries = (\<lambda>a. \<lparr>registry = [], helpFor = []\<rparr>), fresh = 0\<rparr>"

text \<open>A store in which the caller owns one empty mapping of each kind, at address 0.\<close>

definition caller_heap :: heap where
  "caller_heap = empty_heap\<lparr>fresh := 1\<rparr>"

definition demo_cmd :: Cmd where
  "demo_cmd =
     \<lparr>name = ''demo'', description = [], helper = [],
      generators = Some 0, markerRegistry = 0, outputRules = Some 0\<rparr>"

definition demo_heap :: heap where
  "demo_heap =
     empty_heap\<lparr>
       generator_maps := (generator_maps empty_heap)(0 := [(''obj'', Generator ''obj'')]),
       rule_maps := (rule_maps empty_heap)
         (0 := [(''dir'', OutputToDirectory []), (''stdout'', OutputToStdout)]),
       fresh := 1\<rparr>"

definition demo_marker :: "string \<Rightarrow> marker_output \<Rightarrow> Definition" where
  "demo_marker nm out = \<lparr>Name = nm, Target = DescribesPackage, Output = out\<rparr>"

definition demo_registry :: Registry where
  "demo_registry =
     \<lparr>registry =
        [(''obj'', demo_marker ''obj'' (GeneratorOutput (Generator ''obj''))),
         (''output:obj:dir'',
            demo_marker ''output:obj:dir'' (OutputRuleOutput (OutputToDirectory []))),
         (''output:obj:stdout'',
            demo_marker ''output:obj:stdout'' (OutputRuleOutput OutputToStdout)),
         (''output:dir'', demo_marker ''output:dir'' (OutputRuleOutput (OutputToDirectory []))),
         (''output:stdout'', demo_marker ''output:stdout'' (OutputRuleOutput OutputToStdout)),
         (''paths'', demo_marker ''paths'' (OptionOutput ''paths''))],
      helpFor =
        [(demo_marker ''output:obj:dir'' (OutputRuleOutput (OutputToDirectory [])),
            ''output rule''),
         (demo_marker ''output:obj:stdout'' (OutputRuleOutput OutputToStdout), ''output rule''),
         (demo_marker ''output:dir'' (OutputRuleOutput (OutputToDirectory [])), ''output rule''),
         (demo_marker ''output:stdout'' (OutputRuleOutput OutputToStdout), ''output rule'')]\<rparr>"

definition demo_registered :: heap where
  "demo_registered = demo_heap\<lparr>registries := (registries demo_heap)(0 := demo_registry)\<rparr>"

definition demo_docs :: "CategoryDoc list" where
  "demo_docs =
     [\<lparr>Category = ''generators'', Markers = [''obj'']\<rparr>,
      \<lparr>Category = [], Markers = [''paths'']\<rparr>]"

definition demo_env :: collaborators where
  "demo_env =
     \<lparr>ByCategory = (\<lambda>reg sorter. demo_docs),
      FromOptions = (\<lambda>reg opts.
        Inr \<lparr>Generators = map Generator opts, hadErrs = (''broken'' \<in> set opts)\<rparr>),
      RegistryFromOptions = (\<lambda>reg opts. Inr reg),
      write_error = (\<lambda>s t. None)\<rparr>"

text \<open>A store in which the caller's output-rule mapping at address 0 has one rule.\<close>

definition rules_heap :: heap where
  "rules_heap =
     caller_heap\<lparr>rule_maps := (rule_maps caller_heap)(0 := [(''file'', OutputRule ''file'')])\<rparr>"

definition no_flags :: flags where
  "no_flags = \<lparr>showVersion = False, helpLevel = 0, whichLevel = 0\<rparr>"

text \<open>The upper case of the ASCII letters, as an instance of \<open>unicode.ToUpper\<close>.\<close>

definition ascii_upper :: "int \<Rightarrow> int" where
  "ascii_upper r = (if 97 \<le> r \<and> r \<le> 122 then r - 32 else r)"

section \<open>Registration derives the marker names\<close>

lemma extends_refl: "extends r r []"
  by (simp add: extends_def)

lemma extends_trans:
  assumes "extends r r1 xs" and "extends r1 r2 ys"
  shows "extends r r2 (xs @ ys)"
  using assms by (auto simp: extends_def)

lemma registry_attach_help: "registry (attach_help cap d r) = registry r"
  by (simp add: attach_help_def AddHelp_def split: option.splits)

lemma Register_extends:
  "Register r d = Inr r' \<Longrightarrow> extends r r' [Name d]"
  by (auto simp: Register_def extends_def marker_names_def split: if_splits)

lemma register_marker_extends:
  assumes "register_marker eng nm out cap r = Inr r'"
  shows "extends r r' [nm]"
proof -
  from assms obtain d r1 where d: "MakeDefinition eng nm DescribesPackage out = Inr d"
    and r1: "Register r d = Inr r1" and r': "r' = attach_help cap d r1"
    by (auto simp: register_marker_def Must_def split: sum.splits)
  from d have "Name d = nm"
    by (auto simp: MakeDefinition_def split: option.splits)
  with Register_extends[OF r1] show ?thesis
    by (simp add: extends_def marker_names_def r' registry_attach_help)
qed

lemma register_generator_rules_extends:
  "register_generator_rules eng g rules r = Inr r' \<Longrightarrow>
   extends r r' (map (generator_rule_marker g) (map fst rules))"
proof (induction rules arbitrary: r)
  case Nil
  then show ?case by (simp add: extends_refl)
next
  case (Cons a rules)
  obtain rn rule where a: "a = (rn, rule)" by (cases a)
  from Cons.prems obtain r1 where
    s1: "register_marker eng (generator_rule_marker g rn) (OutputRuleOutput rule)
           (rule_help eng rule) r = Inr r1"
    and s2: "register_generator_rules eng g rules r1 = Inr r'"
    by (auto simp: a split: sum.splits)
  show ?case
    using extends_trans[OF register_marker_extends[OF s1] Cons.IH[OF s2]] by (simp add: a)
qed

lemma register_default_rules_extends:
  "register_default_rules eng rules r = Inr r' \<Longrightarrow>
   extends r r' (map default_rule_marker (map fst rules))"
proof (induction rules arbitrary: r)
  case Nil
  then show ?case by (simp add: extends_refl)
next
  case (Cons a rules)
  obtain rn rule where a: "a = (rn, rule)" by (cases a)
  from Cons.prems obtain r1 where
    s1: "register_marker eng (default_rule_marker rn) (OutputRuleOutput rule)
           (rule_help eng rule) r = Inr r1"
    and s2: "register_default_rules eng rules r1 = Inr r'"
    by (auto simp: a split: sum.splits)
  show ?case
    using extends_trans[OF register_marker_extends[OF s1] Cons.IH[OF s2]] by (simp add: a)
qed

lemma register_generators_extends:
  "register_generators eng rules gens r = Inr r' \<Longrightarrow>
   extends r r' (concat (map (generator_markers (map fst rules)) (map fst gens)))"
proof (induction gens arbitrary: r)
  case Nil
  then show ?case by (simp add: extends_refl)
next
  case (Cons a gens)
  obtain gn gen where a: "a = (gn, gen)" by (cases a)
  from Cons.prems obtain r1 r2 where
    s1: "register_marker eng gn (GeneratorOutput gen) (generator_help eng gen) r = Inr r1"
    and s2: "register_generator_rules eng gn rules r1 = Inr r2"
    and s3: "register_generators eng rules gens r2 = Inr r'"
    by (auto simp: a split: sum.splits)
  show ?case
    using extends_trans[OF register_marker_extends[OF s1]
        extends_trans[OF register_generator_rules_extends[OF s2] Cons.IH[OF s3]]]
    by (simp add: a generator_markers_def)
qed

lemma RegisterAll_extends:
  "RegisterAll r ds = Inr r' \<Longrightarrow> extends r r' (map Name ds)"
proof (induction ds arbitrary: r)
  case Nil
  then show ?case by (simp add: extends_refl)
next
  case (Cons d ds)
  from Cons.prems obtain r1 where s1: "Register r d = Inr r1"
    and s2: "RegisterAll r1 ds = Inr r'"
    by (auto split: sum.splits)
  show ?case using extends_trans[OF Register_extends[OF s1] Cons.IH[OF s2]] by simp
qed

lemma register_extends:
  assumes "register eng g h = Inr h'"
  shows "extends (registries h (markerRegistry g)) (registries h' (markerRegistry g))
           (derived_markers eng h g)"
proof -
  let ?rules = "entries (rule_maps h) (outputRules g)"
  from assms obtain r1 r2 r3 where
    s1: "register_generators eng ?rules (entries (generator_maps h) (generators g))
           (registries h (markerRegistry g)) = Inr r1"
    and s2: "register_default_rules eng ?rules r1 = Inr r2"
    and s3: "RegisterAll r2 (options_markers eng) = Inr r3"
    and h': "h' = h\<lparr>registries := (registries h)(markerRegistry g := r3)\<rparr>"
    by (auto simp: register_def Let_def RegisterOptionsMarkers_def split: sum.splits)
  show ?thesis
    using extends_trans[OF register_generators_extends[OF s1]
        extends_trans[OF register_default_rules_extends[OF s2] RegisterAll_extends[OF s3]]]
    by (simp add: h' derived_markers_def generator_names_def rule_names_def)
qed

lemma register_frame:
  assumes "register eng g h = Inr h'"
  shows "generator_maps h' = generator_maps h \<and> rule_maps h' = rule_maps h
         \<and> fresh h' = fresh h
         \<and> (\<forall>a. a \<noteq> markerRegistry g \<longrightarrow> registries h' a = registries h a)"
  using assms
  by (auto simp: register_def Let_def split: sum.splits)

lemma set_derived_markers:
  "set (derived_markers eng h g) =
     set (generator_names h g)
     \<union> {''output:'' @ gn @ '':'' @ rn | gn rn.
          gn \<in> set (generator_names h g) \<and> rn \<in> set (rule_names h g)}
     \<union> {''output:'' @ rn | rn. rn \<in> set (rule_names h g)}
     \<union> Name ` set (options_markers eng)"
  by (auto simp: derived_markers_def generator_markers_def generator_rule_marker_def
      default_rule_marker_def)

lemma demo_register: "register demo_engine demo_cmd demo_heap = Inr demo_registered"
  by (simp add: register_def demo_engine_def demo_cmd_def demo_heap_def empty_heap_def
      entries_def register_marker_def Must_def MakeDefinition_def Register_def
      marker_names_def attach_help_def AddHelp_def RegisterOptionsMarkers_def
      demo_registry_def demo_marker_def demo_registered_def generator_rule_marker_def
      default_rule_marker_def)

lemma demo_frozen:
  "Apply (WithGenerator (New ''demo'') ''obj'' (Generator ''obj'')) empty_heap =
     Inr (demo_cmd, demo_heap)"
  by (simp add: Apply_def WithGenerator_def New_def empty_heap_def demo_cmd_def
      demo_heap_def Let_def fun_eq_iff)

lemma chain_snoc: "chain b (ss @ [s]) = apply_step (chain b ss) s"
  by (simp add: chain_def)

lemma apply_step_registry:
  assumes "apply_step b s h = Inr (c', h2)"
  shows "\<exists>c h1. b h = Inr (c, h1) \<and> markerRegistry c' = markerRegistry c
           \<and> registries h2 = registries h1"
  using assms
  by (cases s)
     (auto simp: WithDescription_def WithHelper_def WithGenerator_def WithGenerators_def
        WithOutputRule_def WithOutputRules_def split: sum.splits option.splits)

lemma chain_registry:
  "chain (New n) ss h = Inr (c, h1) \<Longrightarrow>
   registries h1 (markerRegistry c) = \<lparr>registry = [], helpFor = []\<rparr>"
proof (induction ss arbitrary: c h1 rule: rev_induct)
  case Nil
  then show ?case by (auto simp: chain_def New_def Let_def)
next
  case (snoc s ss)
  from snoc.prems have "apply_step (chain (New n) ss) s h = Inr (c, h1)"
    by (simp add: chain_snoc)
  from apply_step_registry[OF this] obtain c0 h0 where
    "chain (New n) ss h = Inr (c0, h0)" "markerRegistry c = markerRegistry c0"
    "registries h1 = registries h0" by blast
  with snoc.IH show ?case by simp
qed

text \<open>
  Claim C1. After a registration that succeeds, the names of the registry are the
  names it held before, the generator names, \<open>output:g:r\<close> for every generator name
  \<open>g\<close> and rule name \<open>r\<close>, \<open>output:r\<close> for every rule name \<open>r\<close>, and the names of the
  engine's option markers, and no other name; each of the new names was registered
  once. The registry of a configuration frozen from a chain of Builder methods on
  \<open>New\<close> holds no name before the registration.
\<close>

theorem register_marker_names:
  assumes "register eng g h = Inr h'"
  shows "set (marker_names (registries h' (markerRegistry g))) =
           set (marker_names (registries h (markerRegistry g)))
           \<union> set (generator_names h g)
           \<union> {''output:'' @ gn @ '':'' @ rn | gn rn.
                gn \<in> set (generator_names h g) \<and> rn \<in> set (rule_names h g)}
           \<union> {''output:'' @ rn | rn. rn \<in> set (rule_names h g)}
           \<union> Name ` set (options_markers eng)
         \<and> marker_names (registries h' (markerRegistry g)) =
             marker_names (registries h (markerRegistry g)) @ derived_markers eng h g
         \<and> distinct (derived_markers eng h g)
         \<and> (Apply (chain (New n) ss) h0 = Inr (g, h) \<longrightarrow>
              marker_names (registries h (markerRegistry g)) = [])"
proof -
  from register_extends[OF assms]
  have e: "marker_names (registries h' (markerRegistry g)) =
          marker_names (registries h (markerRegistry g)) @ derived_markers eng h g"
    and d: "distinct (derived_markers eng h g)"
    by (simp_all add: extends_def)
  from e have s: "set (marker_names (registries h' (markerRegistry g))) =
           set (marker_names (registries h (markerRegistry g)))
           \<union> set (generator_names h g)
           \<union> {''output:'' @ gn @ '':'' @ rn | gn rn.
                gn \<in> set (generator_names h g) \<and> rn \<in> set (rule_names h g)}
           \<union> {''output:'' @ rn | rn. rn \<in> set (rule_names h g)}
           \<union> Name ` set (options_markers eng)"
    by (simp add: set_derived_markers Un_assoc)
  have f: "Apply (chain (New n) ss) h0 = Inr (g, h) \<longrightarrow>
              marker_names (registries h (markerRegistry g)) = []"
    using chain_registry[of n ss h0 g h] by (simp add: Apply_def marker_names_def)
  show ?thesis using s e d f by blast
qed

theorem register_marker_names_witness:
  "Apply (chain (New ''demo'') [AddGenerator ''obj'' (Generator ''obj'')]) empty_heap
     = Inr (demo_cmd, demo_heap)
   \<and> register demo_engine demo_cmd demo_heap = Inr demo_registered
   \<and> generator_names demo_heap demo_cmd = [''obj'']
   \<and> rule_names demo_heap demo_cmd = [''dir'', ''stdout'']
   \<and> marker_names (registries demo_heap (markerRegistry demo_cmd)) = []
   \<and> derived_markers demo_engine demo_heap demo_cmd =
       [''obj'', ''output:obj:dir'', ''output:obj:stdout'', ''output:dir'',
        ''output:stdout'', ''paths'']
   \<and> marker_names (registries demo_registered (markerRegistry demo_cmd)) =
       marker_names (registries demo_heap (markerRegistry demo_cmd))
       @ derived_markers demo_engine demo_heap demo_cmd
   \<and> set (marker_names (registries demo_registered (markerRegistry demo_cmd))) =
       {''obj'', ''output:obj:dir'', ''output:obj:stdout'', ''output:dir'',
        ''output:stdout'', ''paths''}"
proof -
  have frozen: "Apply (chain (New ''demo'') [AddGenerator ''obj'' (Generator ''obj'')])
                  empty_heap = Inr (demo_cmd, demo_heap)"
    using demo_frozen by (simp add: chain_def)
  have names: "generator_names demo_heap demo_cmd = [''obj'']"
    "rule_names demo_heap demo_cmd = [''dir'', ''stdout'']"
    by (simp_all add: generator_names_def rule_names_def entries_def demo_heap_def
        demo_cmd_def empty_heap_def)
  have derived: "derived_markers demo_engine demo_heap demo_cmd =
       [''obj'', ''output:obj:dir'', ''output:obj:stdout'', ''output:dir'',
        ''output:stdout'', ''paths'']"
    by (simp add: derived_markers_def names generator_markers_def generator_rule_marker_def
        default_rule_marker_def demo_engine_def)
  from register_marker_names[OF demo_register, of "''demo''"
        "[AddGenerator ''obj'' (Generator ''obj'')]" empty_heap]
  have listing: "marker_names (registries demo_registered (markerRegistry demo_cmd)) =
       marker_names (registries demo_heap (markerRegistry demo_cmd))
       @ derived_markers demo_engine demo_heap demo_cmd"
    and before: "Apply (chain (New ''demo'') [AddGenerator ''obj'' (Generator ''obj'')])
                   empty_heap = Inr (demo_cmd, demo_heap) \<longrightarrow>
                 marker_names (registries demo_heap (markerRegistry demo_cmd)) = []"
    by blast+
  from before frozen have empty: "marker_names (registries demo_heap (markerRegistry demo_cmd)) = []"
    by blast
  have after: "set (marker_names (registries demo_registered (markerRegistry demo_cmd))) =
       {''obj'', ''output:obj:dir'', ''output:obj:stdout'', ''output:dir'',
        ''output:stdout'', ''paths''}"
    by (simp only: listing empty derived append_Nil list.set)
  show ?thesis
    using frozen demo_register names empty derived listing after by blast
qed

section \<open>The builder on the store\<close>

lemma chain_append: "chain (chain b xs) ys = chain b (xs @ ys)"
  by (simp add: chain_def)

lemma New_built_on: "\<exists>c h1. New n h = Inr (c, h1) \<and> built_on h c h1"
  by (simp add: New_def Let_def built_on_def)

lemma apply_step_built_on:
  assumes "b h = Inr (c, h1)" and "built_on h c h1" and "individual s"
  shows "\<exists>c' h2. apply_step b s h = Inr (c', h2) \<and> built_on h c' h2"
  using assms
  by (cases s)
     (auto simp: WithDescription_def WithHelper_def WithGenerator_def WithOutputRule_def
        built_on_def)

lemma chain_built_on:
  assumes "list_all individual ss"
  shows "\<exists>c h1. chain (New n) ss h = Inr (c, h1) \<and> built_on h c h1"
  using assms
proof (induction ss rule: rev_induct)
  case Nil
  then show ?case using New_built_on by (simp add: chain_def)
next
  case (snoc s ss)
  then obtain c h1 where "chain (New n) ss h = Inr (c, h1)" and "built_on h c h1"
    by auto
  moreover from snoc.prems have "individual s" by simp
  ultimately show ?case
    using apply_step_built_on by (simp add: chain_snoc)
qed

lemma WithGenerator_twice:
  "WithGenerator (WithGenerator b k g1) k g2 = WithGenerator b k g2"
  by (auto simp: WithGenerator_def fun_eq_iff split: sum.splits option.splits)

text \<open>
  Claim C3, as the code has it. Two generators under one name do not abort: the
  second assignment overwrites the first in the generator mapping, so the frozen
  configuration is the one that was given the second generator alone. Its generator
  mapping holds the second generator under that name, and every name once.
\<close>

theorem same_name_generator_overwrites:
  "Apply (WithGenerator (WithGenerator b k g1) k g2) h = Apply (WithGenerator b k g2) h
   \<and> (Apply b h = Inr (c, h1) \<and> generators c = Some a \<longrightarrow>
        Apply (WithGenerator (WithGenerator b k g1) k g2) h
          = Inr (c, h1\<lparr>generator_maps := (generator_maps h1)
                         (a := AList.update k g2 (generator_maps h1 a))\<rparr>)
        \<and> frozen_generators (WithGenerator (WithGenerator b k g1) k g2) h
          = Inr (AList.update k g2 (generator_maps h1 a))
        \<and> map_of (AList.update k g2 (generator_maps h1 a))
          = (map_of (generator_maps h1 a))(k \<mapsto> g2)
        \<and> (distinct (map fst (generator_maps h1 a)) \<longrightarrow>
             distinct (map fst (AList.update k g2 (generator_maps h1 a)))))"
proof (intro conjI impI)
  show "Apply (WithGenerator (WithGenerator b k g1) k g2) h = Apply (WithGenerator b k g2) h"
    by (simp add: Apply_def WithGenerator_twice)
next
  assume "Apply b h = Inr (c, h1) \<and> generators c = Some a"
  then show "Apply (WithGenerator (WithGenerator b k g1) k g2) h
          = Inr (c, h1\<lparr>generator_maps := (generator_maps h1)
                         (a := AList.update k g2 (generator_maps h1 a))\<rparr>)"
    by (simp add: Apply_def WithGenerator_twice WithGenerator_def)
next
  assume "Apply b h = Inr (c, h1) \<and> generators c = Some a"
  then show "frozen_generators (WithGenerator (WithGenerator b k g1) k g2) h
          = Inr (AList.update k g2 (generator_maps h1 a))"
    by (simp add: frozen_generators_def Apply_def WithGenerator_twice WithGenerator_def
        entries_def)
next
  show "map_of (AList.update k g2 (generator_maps h1 a))
          = (map_of (generator_maps h1 a))(k \<mapsto> g2)"
    by (rule update_conv')
next
  assume "distinct (map fst (generator_maps h1 a))"
  then show "distinct (map fst (AList.update k g2 (generator_maps h1 a)))"
    by (rule distinct_update)
qed

theorem same_name_generator_overwrites_witness:
  "Apply (New ''demo'') empty_heap
     = Inr (demo_cmd, demo_heap\<lparr>generator_maps := (generator_maps demo_heap)(0 := [])\<rparr>)
   \<and> generators demo_cmd = Some 0
   \<and> Apply (WithGenerator (WithGenerator (New ''demo'') ''obj'' (Generator ''first''))
            ''obj'' (Generator ''second'')) empty_heap
     = Apply (WithGenerator (New ''demo'') ''obj'' (Generator ''second'')) empty_heap
   \<and> Apply (WithGenerator (WithGenerator (New ''demo'') ''obj'' (Generator ''first''))
            ''obj'' (Generator ''second'')) empty_heap
     = Inr (demo_cmd,
            demo_heap\<lparr>generator_maps :=
              (generator_maps demo_heap)(0 := [(''obj'', Generator ''second'')])\<rparr>)
   \<and> frozen_generators
        (WithGenerator (WithGenerator (New ''demo'') ''obj'' (Generator ''first''))
           ''obj'' (Generator ''second'')) empty_heap
     = Inr [(''obj'', Generator ''second'')]"
proof -
  have n: "Apply (New ''demo'') empty_heap
     = Inr (demo_cmd, demo_heap\<lparr>generator_maps := (generator_maps demo_heap)(0 := [])\<rparr>)"
    by (simp add: Apply_def New_def Let_def demo_cmd_def demo_heap_def empty_heap_def fun_eq_iff)
  have g: "generators demo_cmd = Some 0" by (simp add: demo_cmd_def)
  show ?thesis
    using same_name_generator_overwrites[where b = "New ''demo''" and k = "''obj''"
        and ?g1.0 = "Generator ''first''" and ?g2.0 = "Generator ''second''"
        and h = empty_heap and c = demo_cmd
        and ?h1.0 = "demo_heap\<lparr>generator_maps := (generator_maps demo_heap)(0 := [])\<rparr>"
        and a = 0] n g
    by (simp add: WithGenerator_twice)
qed

text \<open>
  Claim C3 as stated fails: the demo tool given two generators under the name
  \<open>obj\<close> freezes with the second one alone, registers, and runs its generator.
\<close>

theorem same_name_generators_counterexample:
  "frozen_generators
     (WithGenerator (WithGenerator (New ''demo'') ''obj'' (Generator ''first''))
        ''obj'' (Generator ''obj''))
     empty_heap = Inr [(''obj'', Generator ''obj'')]
   \<and> Apply (WithGenerator (WithGenerator (New ''demo'') ''obj'' (Generator ''first''))
        ''obj'' (Generator ''obj'')) empty_heap = Inr (demo_cmd, demo_heap)
   \<and> register demo_engine demo_cmd demo_heap = Inr demo_registered
   \<and> Run demo_engine demo_env demo_cmd demo_heap no_flags [''obj'']
       = ([CallFromOptions [''obj''], RunGenerators], Returned)"
proof -
  have a: "Apply (WithGenerator (WithGenerator (New ''demo'') ''obj'' (Generator ''first''))
        ''obj'' (Generator ''obj'')) empty_heap = Inr (demo_cmd, demo_heap)"
    by (simp add: Apply_def WithGenerator_twice demo_frozen[unfolded Apply_def])
  have f: "frozen_generators
     (WithGenerator (WithGenerator (New ''demo'') ''obj'' (Generator ''first''))
        ''obj'' (Generator ''obj''))
     empty_heap = Inr [(''obj'', Generator ''obj'')]"
    by (simp add: frozen_generators_def a entries_def demo_cmd_def demo_heap_def)
  have r: "Run demo_engine demo_env demo_cmd demo_heap no_flags [''obj'']
       = ([CallFromOptions [''obj''], RunGenerators], Returned)"
    by (simp add: Run_def demo_register RunE_def no_flags_def demo_env_def)
  show ?thesis using a f r demo_register by simp
qed

lemma chain_individual_frame:
  assumes "list_all individual ss"
  shows "\<exists>c h1. Apply (chain (New n) ss) h = Inr (c, h1) \<and> fresh h1 = Suc (fresh h)
           \<and> (\<forall>a. a < fresh h \<longrightarrow>
                 generator_maps h1 a = generator_maps h a
               \<and> rule_maps h1 a = rule_maps h a
               \<and> registries h1 a = registries h a)"
proof -
  from chain_built_on[OF assms, of n h] obtain c h1
    where "chain (New n) ss h = Inr (c, h1)" and "built_on h c h1" by blast
  then show ?thesis by (auto simp: Apply_def built_on_def)
qed

lemma replace_rules_after_individual:
  assumes "list_all individual ss" and "allocated h m"
  shows "frozen_rules (WithOutputRules (chain (New n) ss) m) h = Inr (entries (rule_maps h) m)"
proof -
  from chain_built_on[OF assms(1), of n h] obtain c h1
    where c: "chain (New n) ss h = Inr (c, h1)" and b: "built_on h c h1" by blast
  have "entries (rule_maps h1) m = entries (rule_maps h) m"
    using assms(2) b by (cases m) (auto simp: entries_def allocated_def built_on_def)
  then show ?thesis
    by (simp add: frozen_rules_def Apply_def WithOutputRules_def c)
qed

lemma apply_step_rules_frame:
  assumes r: "apply_step b s h = Inr (c', h2)"
    and s: "s \<noteq> SetOutputRules (Some a)"
    and i: "\<And>c h1. b h = Inr (c, h1) \<Longrightarrow>
              outputRules c \<noteq> Some a \<and> rule_maps h1 a = rule_maps h a"
  shows "outputRules c' \<noteq> Some a \<and> rule_maps h2 a = rule_maps h a"
proof (cases "b h")
  case (Inl p)
  with r show ?thesis
    by (cases s)
       (simp_all add: WithDescription_def WithHelper_def WithGenerator_def
          WithGenerators_def WithOutputRule_def WithOutputRules_def)
next
  case (Inr x)
  obtain c h1 where x: "x = (c, h1)" by (cases x)
  from i[of c h1] Inr x have inv: "outputRules c \<noteq> Some a" "rule_maps h1 a = rule_maps h a"
    by simp_all
  from r s Inr x inv show ?thesis
    by (cases s)
       (auto simp: WithDescription_def WithHelper_def WithGenerator_def
          WithGenerators_def WithOutputRule_def WithOutputRules_def
          split: option.splits)
qed

lemma chain_rules_frame:
  assumes "chain (New n) ss h = Inr (c, h1)" and "a < fresh h"
    and "SetOutputRules (Some a) \<notin> set ss"
  shows "outputRules c \<noteq> Some a \<and> rule_maps h1 a = rule_maps h a"
  using assms
proof (induction ss arbitrary: c h1 rule: rev_induct)
  case Nil
  then show ?case by (auto simp: chain_def New_def Let_def)
next
  case (snoc s ss)
  from snoc.prems have r: "apply_step (chain (New n) ss) s h = Inr (c, h1)"
    by (simp add: chain_snoc)
  from snoc.prems have s: "s \<noteq> SetOutputRules (Some a)"
    and ss: "SetOutputRules (Some a) \<notin> set ss" by auto
  show ?case
  proof (rule apply_step_rules_frame[OF r s])
    fix c0 h0 assume "chain (New n) ss h = Inr (c0, h0)"
    then show "outputRules c0 \<noteq> Some a \<and> rule_maps h0 a = rule_maps h a"
      using snoc.IH snoc.prems(2) ss by blast
  qed
qed

lemma replace_rules_unshared:
  assumes "Apply (chain (New n) ss) h = Inr (c, h1)" and "a < fresh h"
    and "SetOutputRules (Some a) \<notin> set ss"
  shows "frozen_rules (WithOutputRules (chain (New n) ss) (Some a)) h = Inr (rule_maps h a)"
proof -
  from assms have c: "chain (New n) ss h = Inr (c, h1)" by (simp add: Apply_def)
  from chain_rules_frame[OF c assms(2,3)] have "rule_maps h1 a = rule_maps h a" by simp
  then show ?thesis
    by (simp add: frozen_rules_def Apply_def WithOutputRules_def c entries_def)
qed

text \<open>
  Claim C9, as the code has it. A configuration frozen from \<open>New\<close> alone has the two
  output rules \<open>dir\<close> and \<open>stdout\<close>. After a replacement of the mapping the frozen
  configuration has exactly the entries that the mapping passed holds at the freeze,
  none for the nil mapping. For a mapping of the caller's that the chain did not
  pass before, these are the entries the caller gave it: the defaults and every rule
  added before are gone. A rule that was added after an earlier replacement by the
  same mapping was written into that mapping and stays. A rule added after a
  replacement by a mapping that is not nil is added to that mapping; after a
  replacement by the nil mapping the freeze panics on the assignment. All this is
  for a chain that freezes without panic up to the replacement; a panic before it
  is the panic of the freeze.
\<close>

theorem output_rules_replace_and_add:
  "frozen_rules (New n) h = Inr [(''dir'', OutputToDirectory []), (''stdout'', OutputToStdout)]
   \<and> (Apply b h = Inr (c, h1) \<longrightarrow>
        frozen_rules (WithOutputRules b m) h = Inr (entries (rule_maps h1) m)
        \<and> frozen_rules (WithOutputRules b None) h = Inr []
        \<and> frozen_rules (WithOutputRules b (Some a)) h = Inr (rule_maps h1 a)
        \<and> frozen_rules
            (WithOutputRules (WithOutputRule (WithOutputRules b (Some a)) k r) (Some a)) h
          = Inr (AList.update k r (rule_maps h1 a))
        \<and> map_of (AList.update k r (rule_maps h1 a)) k = Some r)
   \<and> (Apply (chain (New n) ss) h = Inr (c, h1) \<and> a < fresh h
        \<and> SetOutputRules (Some a) \<notin> set ss \<longrightarrow>
        frozen_rules (WithOutputRules (chain (New n) ss) (Some a)) h = Inr (rule_maps h a))
   \<and> (list_all individual ss \<and> allocated h m \<longrightarrow>
        frozen_rules (WithOutputRules (chain (New n) ss) m) h = Inr (entries (rule_maps h) m))
   \<and> (Apply b h = Inr (c, h1) \<longrightarrow>
        frozen_rules (WithOutputRule (WithOutputRules b (Some a)) k r) h
          = Inr (AList.update k r (rule_maps h1 a))
        \<and> map_of (AList.update k r (rule_maps h1 a)) = (map_of (rule_maps h1 a))(k \<mapsto> r)
        \<and> frozen_rules (WithOutputRule (WithOutputRules b None) k r) h
          = Inl NilMapAssignment)
   \<and> (Apply b h = Inl p \<longrightarrow>
        frozen_rules (WithOutputRules b m) h = Inl p
        \<and> frozen_rules (WithOutputRule b k r) h = Inl p)"
proof (intro conjI impI)
  show "frozen_rules (New n) h
          = Inr [(''dir'', OutputToDirectory []), (''stdout'', OutputToStdout)]"
    by (simp add: frozen_rules_def Apply_def New_def Let_def entries_def)
next
  assume "Apply b h = Inl p"
  then show "frozen_rules (WithOutputRules b m) h = Inl p"
    by (simp add: frozen_rules_def Apply_def WithOutputRules_def)
next
  assume "Apply b h = Inl p"
  then show "frozen_rules (WithOutputRule b k r) h = Inl p"
    by (simp add: frozen_rules_def Apply_def WithOutputRule_def)
next
  assume "Apply b h = Inr (c, h1)"
  then show "frozen_rules (WithOutputRules b m) h = Inr (entries (rule_maps h1) m)"
    by (simp add: frozen_rules_def Apply_def WithOutputRules_def)
next
  assume "Apply b h = Inr (c, h1)"
  then show "frozen_rules (WithOutputRules b None) h = Inr []"
    by (simp add: frozen_rules_def Apply_def WithOutputRules_def entries_def)
next
  assume "Apply b h = Inr (c, h1)"
  then show "frozen_rules (WithOutputRules b (Some a)) h = Inr (rule_maps h1 a)"
    by (simp add: frozen_rules_def Apply_def WithOutputRules_def entries_def)
next
  assume "Apply b h = Inr (c, h1)"
  then show "frozen_rules
            (WithOutputRules (WithOutputRule (WithOutputRules b (Some a)) k r) (Some a)) h
          = Inr (AList.update k r (rule_maps h1 a))"
    by (simp add: frozen_rules_def Apply_def WithOutputRule_def WithOutputRules_def
        entries_def)
next
  show "map_of (AList.update k r (rule_maps h1 a)) k = Some r"
    by (simp add: update_conv')
next
  assume "Apply (chain (New n) ss) h = Inr (c, h1) \<and> a < fresh h
        \<and> SetOutputRules (Some a) \<notin> set ss"
  then show "frozen_rules (WithOutputRules (chain (New n) ss) (Some a)) h
               = Inr (rule_maps h a)"
    using replace_rules_unshared by blast
next
  assume "list_all individual ss \<and> allocated h m"
  then show "frozen_rules (WithOutputRules (chain (New n) ss) m) h
               = Inr (entries (rule_maps h) m)"
    using replace_rules_after_individual by blast
next
  assume "Apply b h = Inr (c, h1)"
  then show "frozen_rules (WithOutputRule (WithOutputRules b (Some a)) k r) h
          = Inr (AList.update k r (rule_maps h1 a))"
    by (simp add: frozen_rules_def Apply_def WithOutputRule_def WithOutputRules_def
        entries_def)
next
  show "map_of (AList.update k r (rule_maps h1 a)) = (map_of (rule_maps h1 a))(k \<mapsto> r)"
    by (rule update_conv')
next
  assume "Apply b h = Inr (c, h1)"
  then show "frozen_rules (WithOutputRule (WithOutputRules b None) k r) h
               = Inl NilMapAssignment"
    by (simp add: frozen_rules_def Apply_def WithOutputRule_def WithOutputRules_def)
qed

theorem output_rules_replace_and_add_witness:
  "frozen_rules (New ''demo'') rules_heap
     = Inr [(''dir'', OutputToDirectory []), (''stdout'', OutputToStdout)]
   \<and> (0::nat) < fresh rules_heap
   \<and> SetOutputRules (Some 0)
       \<notin> set [AddOutputRule ''yaml'' (OutputRule ''yaml''), SetOutputRules None]
   \<and> frozen_rules
        (WithOutputRules
           (chain (New ''demo'')
              [AddOutputRule ''yaml'' (OutputRule ''yaml''), SetOutputRules None])
           (Some 0)) rules_heap
       = Inr [(''file'', OutputRule ''file'')]
   \<and> list_all individual [AddOutputRule ''yaml'' (OutputRule ''yaml'')]
   \<and> allocated rules_heap (Some 0)
   \<and> frozen_rules
        (WithOutputRules (chain (New ''demo'') [AddOutputRule ''yaml'' (OutputRule ''yaml'')])
           (Some 0)) rules_heap
       = Inr [(''file'', OutputRule ''file'')]
   \<and> frozen_rules (WithOutputRules (New ''demo'') (Some 0)) rules_heap
       = Inr [(''file'', OutputRule ''file'')]
   \<and> frozen_rules (WithOutputRules (New ''demo'') None) rules_heap = Inr []
   \<and> frozen_rules
        (WithOutputRules
           (WithOutputRule (WithOutputRules (New ''demo'') (Some 0)) ''yaml''
              (OutputRule ''yaml''))
           (Some 0)) rules_heap
       = Inr [(''file'', OutputRule ''file''), (''yaml'', OutputRule ''yaml'')]
   \<and> frozen_rules
        (WithOutputRule (WithOutputRules (New ''demo'') (Some 0)) ''yaml'' (OutputRule ''yaml''))
        rules_heap
       = Inr [(''file'', OutputRule ''file''), (''yaml'', OutputRule ''yaml'')]
   \<and> frozen_rules
        (WithOutputRule (WithOutputRules (New ''demo'') None) ''yaml'' (OutputRule ''yaml''))
        rules_heap
       = Inl NilMapAssignment
   \<and> Apply
        (WithOutputRule (WithOutputRules (New ''demo'') None) ''yaml'' (OutputRule ''yaml''))
        rules_heap
       = Inl NilMapAssignment
   \<and> frozen_rules
        (WithOutputRules
           (WithOutputRule (WithOutputRules (New ''demo'') None) ''yaml''
              (OutputRule ''yaml''))
           (Some 0)) rules_heap
       = Inl NilMapAssignment"
proof -
  let ?ss = "[AddOutputRule ''yaml'' (OutputRule ''yaml''), SetOutputRules None]"
  let ?nil = "WithOutputRule (WithOutputRules (New ''demo'') None) ''yaml''
                (OutputRule ''yaml'')"
  have pn: "Apply ?nil rules_heap = Inl NilMapAssignment"
    by (simp add: Apply_def WithOutputRule_def WithOutputRules_def New_def Let_def)
  have panics: "frozen_rules (WithOutputRules ?nil (Some 0)) rules_heap = Inl NilMapAssignment"
    using output_rules_replace_and_add[where b = ?nil and h = rules_heap
        and p = NilMapAssignment and m = "Some 0"] pn
    by simp
  have i: "list_all individual [AddOutputRule ''yaml'' (OutputRule ''yaml'')]" by simp
  have al: "allocated rules_heap (Some 0)" "(0::nat) < fresh rules_heap"
    by (simp_all add: allocated_def rules_heap_def caller_heap_def)
  have ns: "SetOutputRules (Some 0) \<notin> set ?ss" by simp
  have e: "entries (rule_maps rules_heap) (Some 0) = [(''file'', OutputRule ''file'')]"
    "rule_maps rules_heap 0 = [(''file'', OutputRule ''file'')]"
    by (simp_all add: entries_def rules_heap_def)
  obtain c h1 where n: "Apply (New ''demo'') rules_heap = Inr (c, h1)"
    and h1: "rule_maps h1 0 = [(''file'', OutputRule ''file'')]"
    by (simp add: Apply_def New_def Let_def rules_heap_def caller_heap_def)
  obtain c2 h2 where n2: "Apply (chain (New ''demo'') ?ss) rules_heap = Inr (c2, h2)"
    by (simp add: Apply_def chain_def New_def Let_def WithOutputRule_def WithOutputRules_def)
  have unshared: "frozen_rules (WithOutputRules (chain (New ''demo'') ?ss) (Some 0)) rules_heap
       = Inr [(''file'', OutputRule ''file'')]"
    using output_rules_replace_and_add[where n = "''demo''" and h = rules_heap
        and ss = ?ss and c = c2 and ?h1.0 = h2 and a = 0] al ns e n2
    by simp
  have rest: "frozen_rules (New ''demo'') rules_heap
     = Inr [(''dir'', OutputToDirectory []), (''stdout'', OutputToStdout)]
   \<and> frozen_rules
        (WithOutputRules (chain (New ''demo'') [AddOutputRule ''yaml'' (OutputRule ''yaml'')])
           (Some 0)) rules_heap
       = Inr [(''file'', OutputRule ''file'')]
   \<and> frozen_rules (WithOutputRules (New ''demo'') (Some 0)) rules_heap
       = Inr [(''file'', OutputRule ''file'')]
   \<and> frozen_rules (WithOutputRules (New ''demo'') None) rules_heap = Inr []
   \<and> frozen_rules
        (WithOutputRules
           (WithOutputRule (WithOutputRules (New ''demo'') (Some 0)) ''yaml''
              (OutputRule ''yaml''))
           (Some 0)) rules_heap
       = Inr [(''file'', OutputRule ''file''), (''yaml'', OutputRule ''yaml'')]
   \<and> frozen_rules
        (WithOutputRule (WithOutputRules (New ''demo'') (Some 0)) ''yaml'' (OutputRule ''yaml''))
        rules_heap
       = Inr [(''file'', OutputRule ''file''), (''yaml'', OutputRule ''yaml'')]
   \<and> frozen_rules
        (WithOutputRule (WithOutputRules (New ''demo'') None) ''yaml'' (OutputRule ''yaml''))
        rules_heap
       = Inl NilMapAssignment"
    using output_rules_replace_and_add[where n = "''demo''" and h = rules_heap
        and ss = "[AddOutputRule ''yaml'' (OutputRule ''yaml'')]" and m = "Some 0"
        and b = "New ''demo''" and c = c and ?h1.0 = h1 and a = 0 and k = "''yaml''"
        and r = "OutputRule ''yaml''"]
      i al e n h1
    by (simp add: entries_def)
  show ?thesis using rest unshared panics pn i al ns by blast
qed

text \<open>
  Claim C9 as stated fails in two ways: adding a rule after replacing the mapping
  by nil is not additive, the freeze panics; and replacing the mapping by one into
  which an earlier step wrote a rule does not remove that rule.
\<close>

theorem replaced_rules_counterexample:
  "frozen_rules
     (WithOutputRule (WithOutputRules (New ''demo'') None) ''yaml'' (OutputRule ''yaml''))
     empty_heap
   = Inl NilMapAssignment
   \<and> frozen_rules
        (WithOutputRules
           (WithOutputRule (WithOutputRules (New ''demo'') (Some 0)) ''yaml''
              (OutputRule ''yaml''))
           (Some 0)) rules_heap
       = Inr [(''file'', OutputRule ''file''), (''yaml'', OutputRule ''yaml'')]"
  by (simp add: frozen_rules_def Apply_def WithOutputRule_def WithOutputRules_def New_def
      Let_def entries_def rules_heap_def caller_heap_def)

text \<open>
  Claim C5, as the code has it. Calling a Builder method only composes functions,
  and the composition is associative. Setting the description, the helper or a
  whole mapping never writes to the store. A chain that replaces no mapping
  freezes without failure into mappings and a registry of its own and leaves every
  object that the store held unchanged. After a mapping was replaced, adding an
  entry writes, at the freeze, into the mapping that the caller passed, and the
  freeze panics when that mapping is nil.
\<close>

theorem builder_effects:
  "chain (chain b xs) (ys @ zs) = chain (chain b (xs @ ys)) zs
   \<and> store_after (WithDescription b d) h = store_after b h
   \<and> store_after (WithHelper b s) h = store_after b h
   \<and> store_after (WithGenerators b m) h = store_after b h
   \<and> store_after (WithOutputRules b m) h = store_after b h
   \<and> (list_all individual ss \<longrightarrow>
        (\<exists>c h1. Apply (chain (New n) ss) h = Inr (c, h1) \<and> fresh h1 = Suc (fresh h)
           \<and> (\<forall>a. a < fresh h \<longrightarrow>
                 generator_maps h1 a = generator_maps h a
               \<and> rule_maps h1 a = rule_maps h a
               \<and> registries h1 a = registries h a)))
   \<and> (Apply b h = Inr (c, h1) \<longrightarrow>
        Apply (WithGenerator (WithGenerators b (Some a)) k g) h
          = Inr (c\<lparr>generators := Some a\<rparr>,
                 h1\<lparr>generator_maps := (generator_maps h1)
                       (a := AList.update k g (generator_maps h1 a))\<rparr>)
        \<and> Apply (WithGenerator (WithGenerators b None) k g) h = Inl NilMapAssignment
        \<and> Apply (WithOutputRule (WithOutputRules b (Some a)) k r) h
          = Inr (c\<lparr>outputRules := Some a\<rparr>,
                 h1\<lparr>rule_maps := (rule_maps h1)
                       (a := AList.update k r (rule_maps h1 a))\<rparr>)
        \<and> Apply (WithOutputRule (WithOutputRules b None) k r) h = Inl NilMapAssignment)"
proof (intro conjI impI)
  show "chain (chain b xs) (ys @ zs) = chain (chain b (xs @ ys)) zs"
    by (simp add: chain_append)
next
  show "store_after (WithDescription b d) h = store_after b h"
    by (simp add: store_after_def Apply_def WithDescription_def split: sum.splits)
next
  show "store_after (WithHelper b s) h = store_after b h"
    by (simp add: store_after_def Apply_def WithHelper_def split: sum.splits)
next
  show "store_after (WithGenerators b m) h = store_after b h"
    by (simp add: store_after_def Apply_def WithGenerators_def split: sum.splits)
next
  show "store_after (WithOutputRules b m) h = store_after b h"
    by (simp add: store_after_def Apply_def WithOutputRules_def split: sum.splits)
next
  assume "list_all individual ss"
  then show "\<exists>c h1. Apply (chain (New n) ss) h = Inr (c, h1) \<and> fresh h1 = Suc (fresh h)
           \<and> (\<forall>a. a < fresh h \<longrightarrow>
                 generator_maps h1 a = generator_maps h a
               \<and> rule_maps h1 a = rule_maps h a
               \<and> registries h1 a = registries h a)"
    by (rule chain_individual_frame)
next
  assume "Apply b h = Inr (c, h1)"
  then show "Apply (WithGenerator (WithGenerators b (Some a)) k g) h
          = Inr (c\<lparr>generators := Some a\<rparr>,
                 h1\<lparr>generator_maps := (generator_maps h1)
                       (a := AList.update k g (generator_maps h1 a))\<rparr>)"
    by (simp add: Apply_def WithGenerator_def WithGenerators_def)
next
  assume "Apply b h = Inr (c, h1)"
  then show "Apply (WithGenerator (WithGenerators b None) k g) h = Inl NilMapAssignment"
    by (simp add: Apply_def WithGenerator_def WithGenerators_def)
next
  assume "Apply b h = Inr (c, h1)"
  then show "Apply (WithOutputRule (WithOutputRules b (Some a)) k r) h
          = Inr (c\<lparr>outputRules := Some a\<rparr>,
                 h1\<lparr>rule_maps := (rule_maps h1)
                       (a := AList.update k r (rule_maps h1 a))\<rparr>)"
    by (simp add: Apply_def WithOutputRule_def WithOutputRules_def)
next
  assume "Apply b h = Inr (c, h1)"
  then show "Apply (WithOutputRule (WithOutputRules b None) k r) h = Inl NilMapAssignment"
    by (simp add: Apply_def WithOutputRule_def WithOutputRules_def)
qed

theorem builder_effects_witness:
  "list_all individual [Description ''a tool'', AddGenerator ''obj'' (Generator ''obj'')]
   \<and> frozen_generators
        (chain (New ''demo'') [Description ''a tool'', AddGenerator ''obj'' (Generator ''obj'')])
        caller_heap = Inr [(''obj'', Generator ''obj'')]
   \<and> caller_generators_after
        (chain (New ''demo'') [Description ''a tool'', AddGenerator ''obj'' (Generator ''obj'')])
        caller_heap 0 = Inr []
   \<and> caller_generators_after
        (WithGenerator (WithGenerators (New ''demo'') (Some 0)) ''obj'' (Generator ''obj''))
        caller_heap 0 = Inr [(''obj'', Generator ''obj'')]
   \<and> Apply (WithGenerator (WithGenerators (New ''demo'') None) ''obj'' (Generator ''obj''))
        caller_heap = Inl NilMapAssignment"
proof -
  let ?ss = "[Description ''a tool'', AddGenerator ''obj'' (Generator ''obj'')]"
  have i: "list_all individual ?ss" by simp
  obtain c h1 where n: "Apply (New ''demo'') caller_heap = Inr (c, h1)"
    and h1: "generator_maps h1 0 = []"
    by (simp add: Apply_def New_def Let_def caller_heap_def empty_heap_def)
  have f: "frozen_generators (chain (New ''demo'') ?ss) caller_heap
             = Inr [(''obj'', Generator ''obj'')]"
    by (simp add: frozen_generators_def chain_def Apply_def WithDescription_def
        WithGenerator_def New_def Let_def entries_def caller_heap_def empty_heap_def)
  have g: "caller_generators_after (chain (New ''demo'') ?ss) caller_heap 0 = Inr []"
    by (simp add: caller_generators_after_def chain_def Apply_def WithDescription_def
        WithGenerator_def New_def Let_def caller_heap_def empty_heap_def)
  show ?thesis
    using builder_effects[where b = "New ''demo''" and h = caller_heap and ss = ?ss
        and n = "''demo''" and c = c and ?h1.0 = h1 and a = 0 and k = "''obj''"
        and g = "Generator ''obj''"] i n h1 f g
    by (simp add: caller_generators_after_def)
qed

text \<open>
  Claim C5 as stated fails: freezing a builder that adds a generator after
  \<open>WithGenerators\<close> changes the caller's mapping, and with it the configuration
  that the original builder produces.
\<close>

theorem builder_aliasing_counterexample:
  "generator_maps caller_heap 0 = []
   \<and> frozen_generators (WithGenerators (New ''demo'') (Some 0)) caller_heap = Inr []
   \<and> caller_generators_after
        (WithGenerator (WithGenerators (New ''demo'') (Some 0)) ''obj'' (Generator ''obj''))
        caller_heap 0 = Inr [(''obj'', Generator ''obj'')]
   \<and> (case store_after
              (WithGenerator (WithGenerators (New ''demo'') (Some 0)) ''obj''
                 (Generator ''obj'')) caller_heap of
         Inl p \<Rightarrow> Inl p
       | Inr h2 \<Rightarrow> frozen_generators (WithGenerators (New ''demo'') (Some 0)) h2)
       = Inr [(''obj'', Generator ''obj'')]"
  by (simp add: caller_generators_after_def frozen_generators_def store_after_def Apply_def
      WithGenerator_def WithGenerators_def New_def Let_def entries_def caller_heap_def
      empty_heap_def)

section \<open>The help renderer and the dispatcher\<close>

lemma summary_loop_ok:
  assumes "\<forall>s t. write_error env s t = None"
  shows "summary_loop env cats = (map summary_block (named cats), None)"
  using assms by (induction cats) (simp_all add: named_def summary_block_def)

lemma details_loop_ok:
  assumes "\<forall>s t. write_error env s t = None"
  shows "details_loop env fd cats = (map (details_block fd) (named cats), None)"
  using assms by (induction cats) (simp_all add: named_def details_block_def)

lemma summary_loop_prefix:
  "prefix (fst (summary_loop env cats)) (map summary_block (named cats))"
  by (induction cats)
     (auto simp: named_def summary_block_def Let_def split: option.splits prod.splits)

lemma details_loop_prefix:
  "prefix (fst (details_loop env fd cats)) (map (details_block fd) (named cats))"
  by (induction cats)
     (auto simp: named_def details_block_def Let_def split: option.splits prod.splits)

lemma helpForLevels_above:
  "4 < lvl \<Longrightarrow> helpForLevels env lvl reg sorter = ([], None)"
  by (simp add: helpForLevels_def jsonHelp_def detailedHelp_def fullHelp_def summaryHelp_def)

lemma helpForLevels_zero: "helpForLevels env 0 reg sorter = ([], None)"
  by (simp add: helpForLevels_def jsonHelp_def detailedHelp_def fullHelp_def summaryHelp_def)

lemma helpForLevels_summary:
  "helpForLevels env 1 reg sorter = summary_loop env (ByCategory env reg sorter)"
  by (simp add: helpForLevels_def jsonHelp_def detailedHelp_def fullHelp_def summaryHelp_def)

lemma helpForLevels_detailed:
  "helpForLevels env 2 reg sorter = details_loop env False (ByCategory env reg sorter)"
  by (simp add: helpForLevels_def jsonHelp_def detailedHelp_def fullHelp_def summaryHelp_def)

lemma helpForLevels_full:
  "helpForLevels env 3 reg sorter = details_loop env True (ByCategory env reg sorter)"
  by (simp add: helpForLevels_def jsonHelp_def detailedHelp_def fullHelp_def summaryHelp_def)

lemma helpForLevels_json:
  "write_error env Stdout (JsonDocument (ByCategory env reg sorter)) = None \<Longrightarrow>
   helpForLevels env 4 reg sorter = ([Write Stdout (JsonDocument (ByCategory env reg sorter))], None)"
  by (simp add: helpForLevels_def jsonHelp_def detailedHelp_def fullHelp_def summaryHelp_def)

lemma details_loop_writes: "list_all is_write (fst (details_loop env fd cats))"
  by (induction cats) (auto simp: Let_def split: option.splits prod.splits)

lemma summary_loop_writes: "list_all is_write (fst (summary_loop env cats))"
  by (induction cats) (auto simp: Let_def split: option.splits prod.splits)

lemma helpForLevels_writes: "list_all is_write (fst (helpForLevels env lvl reg sorter))"
  by (simp add: helpForLevels_def Let_def details_loop_writes summary_loop_writes
      split: option.splits)

lemma helpForLevels_writes_pair:
  "helpForLevels env lvl reg sorter = (t, res) \<Longrightarrow> list_all is_write t"
  using helpForLevels_writes[of env lvl reg sorter] by simp

lemma Usage_writes: "list_all is_write (fst (fst (Usage env reg fl)))"
  by (auto simp: Usage_def Let_def split: option.splits prod.splits
      dest: helpForLevels_writes_pair)

lemma printMarkerDocs_trace:
  "\<exists>t. fst (printMarkerDocs env reg raw lvl) = CallRegistryFromOptions raw # t
       \<and> list_all is_write t"
  by (auto simp: printMarkerDocs_def Let_def split: sum.splits prod.splits
      dest: helpForLevels_writes_pair)

lemma printMarkerDocs_resolved:
  "RegistryFromOptions env reg raw = Inr reg' \<Longrightarrow>
   printMarkerDocs env reg raw lvl =
     (CallRegistryFromOptions raw # fst (helpForLevels env lvl reg' SortByCategory),
      snd (helpForLevels env lvl reg' SortByCategory))"
  by (simp add: printMarkerDocs_def Let_def split: prod.splits)

lemma RunE_default:
  assumes "\<not> showVersion fl" "helpLevel fl = 0" "whichLevel fl = 0"
  shows "fst (fst (RunE env c h fl raw)) = [CallFromOptions raw]
         \<or> fst (fst (RunE env c h fl raw)) = [CallFromOptions raw, RunGenerators]"
  using assms by (simp add: RunE_def split: sum.splits)

lemma demo_no_errors: "\<forall>s t. write_error demo_env s t = None"
  by (simp add: demo_env_def)

text \<open>
  Claim C4, as the code has it. The level is not capped: for a count above four the
  renderer matches no case, writes nothing and returns no error, so a marker
  listing with such a count only resolves the registry.
\<close>

theorem levels_above_json_render_nothing:
  "(4 < lvl \<longrightarrow> helpForLevels env lvl reg sorter = ([], None))
   \<and> (\<not> showVersion fl \<and> helpLevel fl = 0 \<and> 4 < whichLevel fl
       \<and> RegistryFromOptions env (registries h (markerRegistry c)) raw = Inr reg'
      \<longrightarrow> RunE env c h fl raw = (([CallRegistryFromOptions raw], None), fl))"
proof (intro conjI impI)
  assume "4 < lvl"
  then show "helpForLevels env lvl reg sorter = ([], None)" by (rule helpForLevels_above)
next
  assume a: "\<not> showVersion fl \<and> helpLevel fl = 0 \<and> 4 < whichLevel fl
       \<and> RegistryFromOptions env (registries h (markerRegistry c)) raw = Inr reg'"
  then have "helpForLevels env (whichLevel fl) reg' SortByCategory = ([], None)"
    by (simp add: helpForLevels_above)
  with a show "RunE env c h fl raw = (([CallRegistryFromOptions raw], None), fl)"
    by (simp add: RunE_def printMarkerDocs_resolved)
qed

theorem levels_above_json_render_nothing_witness:
  "(4::nat) < 5
   \<and> helpForLevels demo_env 5 demo_registry SortByCategory = ([], None)
   \<and> RegistryFromOptions demo_env (registries demo_registered (markerRegistry demo_cmd)) []
       = Inr demo_registry
   \<and> RunE demo_env demo_cmd demo_registered (no_flags\<lparr>whichLevel := 5\<rparr>) []
       = (([CallRegistryFromOptions []], None), no_flags\<lparr>whichLevel := 5\<rparr>)"
proof -
  have r: "RegistryFromOptions demo_env (registries demo_registered (markerRegistry demo_cmd)) []
       = Inr demo_registry"
    by (simp add: demo_env_def demo_registered_def demo_cmd_def)
  show ?thesis
    using levels_above_json_render_nothing[where lvl = 5 and env = demo_env
        and reg = demo_registry and sorter = SortByCategory
        and fl = "no_flags\<lparr>whichLevel := 5\<rparr>" and h = demo_registered and c = demo_cmd
        and raw = "[]" and reg' = demo_registry] r
    by (simp add: no_flags_def)
qed

text \<open>
  Claim C4 as stated fails: at level 5 the renderer writes nothing, at level 4 it
  writes the json document.
\<close>

theorem level_five_counterexample:
  "helpForLevels demo_env 5 demo_registry SortByCategory = ([], None)
   \<and> helpForLevels demo_env 4 demo_registry SortByCategory
       = ([Write Stdout (JsonDocument demo_docs)], None)"
  by (simp add: helpForLevels_def jsonHelp_def detailedHelp_def fullHelp_def summaryHelp_def
      demo_env_def)

lemma helpForLevels_ok:
  assumes ok: "\<forall>s t. write_error env s t = None"
  shows "helpForLevels env 1 reg sorter
          = (map summary_block (named (ByCategory env reg sorter)), None)"
    and "helpForLevels env 2 reg sorter
          = (map (details_block False) (named (ByCategory env reg sorter)), None)"
    and "helpForLevels env 3 reg sorter
          = (map (details_block True) (named (ByCategory env reg sorter)), None)"
    and "helpForLevels env 4 reg sorter
          = ([Write Stdout (JsonDocument (ByCategory env reg sorter))], None)"
proof -
  show "helpForLevels env 1 reg sorter
          = (map summary_block (named (ByCategory env reg sorter)), None)"
    by (simp only: helpForLevels_summary summary_loop_ok[OF ok])
  show "helpForLevels env 2 reg sorter
          = (map (details_block False) (named (ByCategory env reg sorter)), None)"
    by (simp only: helpForLevels_detailed details_loop_ok[OF ok])
  show "helpForLevels env 3 reg sorter
          = (map (details_block True) (named (ByCategory env reg sorter)), None)"
    by (simp only: helpForLevels_full details_loop_ok[OF ok])
  show "helpForLevels env 4 reg sorter
          = ([Write Stdout (JsonDocument (ByCategory env reg sorter))], None)"
    using ok by (simp add: helpForLevels_json)
qed

lemma RunE_listing:
  assumes "\<not> showVersion fl" and "helpLevel fl = 0" and "0 < whichLevel fl"
    and "RegistryFromOptions env (registries h (markerRegistry c)) raw = Inr reg'"
  shows "RunE env c h fl raw =
           ((CallRegistryFromOptions raw
               # fst (helpForLevels env (whichLevel fl) reg' SortByCategory),
             snd (helpForLevels env (whichLevel fl) reg' SortByCategory)), fl)"
  using assms by (simp add: RunE_def printMarkerDocs_resolved)

lemma RunE_help:
  assumes "\<not> showVersion fl" and "0 < helpLevel fl"
    and "write_error env Stderr UsageText = None"
    and "write_error env Stderr OptionsHeader = None"
  shows "RunE env c h fl raw =
           ((Write Stderr UsageText # Write Stderr OptionsHeader
               # fst (helpForLevels env (helpLevel fl) (registries h (markerRegistry c))
                        SortByOption),
             snd (helpForLevels env (helpLevel fl) (registries h (markerRegistry c))
                    SortByOption)), fl)"
  using assms by (simp add: RunE_def Usage_def split: prod.splits)

lemma RunE_listing_levels:
  assumes v: "\<not> showVersion fl" and hl: "helpLevel fl = 0"
    and rg: "RegistryFromOptions env (registries h (markerRegistry c)) raw = Inr reg'"
    and ok: "\<forall>s t. write_error env s t = None"
  shows "whichLevel fl = 1 \<Longrightarrow> RunE env c h fl raw =
           ((CallRegistryFromOptions raw
               # map summary_block (named (ByCategory env reg' SortByCategory)), None), fl)"
    and "whichLevel fl = 2 \<Longrightarrow> RunE env c h fl raw =
           ((CallRegistryFromOptions raw
               # map (details_block False) (named (ByCategory env reg' SortByCategory)),
             None), fl)"
    and "whichLevel fl = 3 \<Longrightarrow> RunE env c h fl raw =
           ((CallRegistryFromOptions raw
               # map (details_block True) (named (ByCategory env reg' SortByCategory)),
             None), fl)"
    and "whichLevel fl = 4 \<Longrightarrow> RunE env c h fl raw =
           (([CallRegistryFromOptions raw,
              Write Stdout (JsonDocument (ByCategory env reg' SortByCategory))], None), fl)"
proof -
  assume l: "whichLevel fl = 1"
  then have "0 < whichLevel fl" by simp
  from RunE_listing[OF v hl this rg] show "RunE env c h fl raw =
           ((CallRegistryFromOptions raw
               # map summary_block (named (ByCategory env reg' SortByCategory)), None), fl)"
    by (simp only: l helpForLevels_ok[OF ok] fst_conv snd_conv)
next
  assume l: "whichLevel fl = 2"
  then have "0 < whichLevel fl" by simp
  from RunE_listing[OF v hl this rg] show "RunE env c h fl raw =
           ((CallRegistryFromOptions raw
               # map (details_block False) (named (ByCategory env reg' SortByCategory)),
             None), fl)"
    by (simp only: l helpForLevels_ok[OF ok] fst_conv snd_conv)
next
  assume l: "whichLevel fl = 3"
  then have "0 < whichLevel fl" by simp
  from RunE_listing[OF v hl this rg] show "RunE env c h fl raw =
           ((CallRegistryFromOptions raw
               # map (details_block True) (named (ByCategory env reg' SortByCategory)),
             None), fl)"
    by (simp only: l helpForLevels_ok[OF ok] fst_conv snd_conv)
next
  assume l: "whichLevel fl = 4"
  then have "0 < whichLevel fl" by simp
  from RunE_listing[OF v hl this rg] show "RunE env c h fl raw =
           (([CallRegistryFromOptions raw,
              Write Stdout (JsonDocument (ByCategory env reg' SortByCategory))], None), fl)"
    by (simp only: l helpForLevels_ok[OF ok] fst_conv snd_conv)
qed

lemma RunE_help_levels:
  assumes v: "\<not> showVersion fl" and ok: "\<forall>s t. write_error env s t = None"
  shows "helpLevel fl = 1 \<Longrightarrow> RunE env c h fl raw =
           ((Write Stderr UsageText # Write Stderr OptionsHeader
               # map summary_block
                   (named (ByCategory env (registries h (markerRegistry c)) SortByOption)),
             None), fl)"
    and "helpLevel fl = 2 \<Longrightarrow> RunE env c h fl raw =
           ((Write Stderr UsageText # Write Stderr OptionsHeader
               # map (details_block False)
                   (named (ByCategory env (registries h (markerRegistry c)) SortByOption)),
             None), fl)"
    and "helpLevel fl = 3 \<Longrightarrow> RunE env c h fl raw =
           ((Write Stderr UsageText # Write Stderr OptionsHeader
               # map (details_block True)
                   (named (ByCategory env (registries h (markerRegistry c)) SortByOption)),
             None), fl)"
    and "helpLevel fl = 4 \<Longrightarrow> RunE env c h fl raw =
           (([Write Stderr UsageText, Write Stderr OptionsHeader,
              Write Stdout
                (JsonDocument (ByCategory env (registries h (markerRegistry c)) SortByOption))],
             None), fl)"
proof -
  from ok have u: "write_error env Stderr UsageText = None"
    and o: "write_error env Stderr OptionsHeader = None" by simp_all
  {
    assume l: "helpLevel fl = 1"
    then have "0 < helpLevel fl" by simp
    from RunE_help[OF v this u o] show "RunE env c h fl raw =
           ((Write Stderr UsageText # Write Stderr OptionsHeader
               # map summary_block
                   (named (ByCategory env (registries h (markerRegistry c)) SortByOption)),
             None), fl)"
      by (simp only: l helpForLevels_ok[OF ok] fst_conv snd_conv)
  next
    assume l: "helpLevel fl = 2"
    then have "0 < helpLevel fl" by simp
    from RunE_help[OF v this u o] show "RunE env c h fl raw =
           ((Write Stderr UsageText # Write Stderr OptionsHeader
               # map (details_block False)
                   (named (ByCategory env (registries h (markerRegistry c)) SortByOption)),
             None), fl)"
      by (simp only: l helpForLevels_ok[OF ok] fst_conv snd_conv)
  next
    assume l: "helpLevel fl = 3"
    then have "0 < helpLevel fl" by simp
    from RunE_help[OF v this u o] show "RunE env c h fl raw =
           ((Write Stderr UsageText # Write Stderr OptionsHeader
               # map (details_block True)
                   (named (ByCategory env (registries h (markerRegistry c)) SortByOption)),
             None), fl)"
      by (simp only: l helpForLevels_ok[OF ok] fst_conv snd_conv)
  next
    assume l: "helpLevel fl = 4"
    then have "0 < helpLevel fl" by simp
    from RunE_help[OF v this u o] show "RunE env c h fl raw =
           (([Write Stderr UsageText, Write Stderr OptionsHeader,
              Write Stdout
                (JsonDocument (ByCategory env (registries h (markerRegistry c)) SortByOption))],
             None), fl)"
      by (simp only: l helpForLevels_ok[OF ok] fst_conv snd_conv)
  }
qed

text \<open>
  Claim C6. At level 0 the renderer writes nothing, and an invocation with both
  counters at 0 (and no version flag) writes nothing in the dispatcher: it goes to
  the generators. When no output fails, level 1 writes one summary block, level 2
  one block of details and level 3 one block of full details for every category
  with a non-empty name, in order, to the diagnostic stream, and level 4 writes the
  whole categorized information as one document to the primary stream. When a write
  fails, the blocks written are a prefix of these: no block of a category with an
  empty name is written. The dispatcher renders at the level of the counter: a
  listing counter of 1, 2, 3 or 4 (with the help counter at 0) resolves the
  registry and writes the rendering of that level, and a help counter of 1, 2, 3
  or 4 writes the usage text, the options header and the rendering of that level.
\<close>

theorem help_levels:
  "helpForLevels env 0 reg sorter = ([], None)
   \<and> (\<not> showVersion fl \<and> helpLevel fl = 0 \<and> whichLevel fl = 0 \<longrightarrow>
        list_all (\<lambda>e. \<not> is_write e) (fst (fst (RunE env c h fl raw))))
   \<and> ((\<forall>s t. write_error env s t = None) \<longrightarrow>
        helpForLevels env 1 reg sorter
          = (map summary_block (named (ByCategory env reg sorter)), None)
        \<and> helpForLevels env 2 reg sorter
          = (map (details_block False) (named (ByCategory env reg sorter)), None)
        \<and> helpForLevels env 3 reg sorter
          = (map (details_block True) (named (ByCategory env reg sorter)), None)
        \<and> helpForLevels env 4 reg sorter
          = ([Write Stdout (JsonDocument (ByCategory env reg sorter))], None))
   \<and> prefix (fst (helpForLevels env 1 reg sorter))
        (map summary_block (named (ByCategory env reg sorter)))
   \<and> prefix (fst (helpForLevels env 2 reg sorter))
        (map (details_block False) (named (ByCategory env reg sorter)))
   \<and> prefix (fst (helpForLevels env 3 reg sorter))
        (map (details_block True) (named (ByCategory env reg sorter)))
   \<and> prefix (fst (helpForLevels env 4 reg sorter))
        [Write Stdout (JsonDocument (ByCategory env reg sorter))]
   \<and> (RegistryFromOptions env reg raw = Inr reg' \<longrightarrow>
        printMarkerDocs env reg raw lvl =
          (CallRegistryFromOptions raw # fst (helpForLevels env lvl reg' SortByCategory),
           snd (helpForLevels env lvl reg' SortByCategory)))
   \<and> ((\<forall>s t. write_error env s t = None) \<and> 0 < helpLevel fl \<longrightarrow>
        Usage env reg fl =
          ((Write Stderr UsageText # Write Stderr OptionsHeader
              # fst (helpForLevels env (helpLevel fl) reg SortByOption),
            snd (helpForLevels env (helpLevel fl) reg SortByOption)), fl))
   \<and> (\<not> showVersion fl \<and> helpLevel fl = 0 \<and> 0 < whichLevel fl
        \<and> RegistryFromOptions env (registries h (markerRegistry c)) raw = Inr rg \<longrightarrow>
        RunE env c h fl raw =
          ((CallRegistryFromOptions raw
              # fst (helpForLevels env (whichLevel fl) rg SortByCategory),
            snd (helpForLevels env (whichLevel fl) rg SortByCategory)), fl))
   \<and> (\<not> showVersion fl \<and> 0 < helpLevel fl
        \<and> write_error env Stderr UsageText = None
        \<and> write_error env Stderr OptionsHeader = None \<longrightarrow>
        RunE env c h fl raw =
          ((Write Stderr UsageText # Write Stderr OptionsHeader
              # fst (helpForLevels env (helpLevel fl) (registries h (markerRegistry c))
                       SortByOption),
            snd (helpForLevels env (helpLevel fl) (registries h (markerRegistry c))
                   SortByOption)), fl))
   \<and> (\<not> showVersion fl \<and> helpLevel fl = 0
        \<and> RegistryFromOptions env (registries h (markerRegistry c)) raw = Inr rg
        \<and> (\<forall>s t. write_error env s t = None) \<longrightarrow>
        (whichLevel fl = 1 \<longrightarrow> RunE env c h fl raw =
           ((CallRegistryFromOptions raw
               # map summary_block (named (ByCategory env rg SortByCategory)), None), fl))
        \<and> (whichLevel fl = 2 \<longrightarrow> RunE env c h fl raw =
           ((CallRegistryFromOptions raw
               # map (details_block False) (named (ByCategory env rg SortByCategory)),
             None), fl))
        \<and> (whichLevel fl = 3 \<longrightarrow> RunE env c h fl raw =
           ((CallRegistryFromOptions raw
               # map (details_block True) (named (ByCategory env rg SortByCategory)),
             None), fl))
        \<and> (whichLevel fl = 4 \<longrightarrow> RunE env c h fl raw =
           (([CallRegistryFromOptions raw,
              Write Stdout (JsonDocument (ByCategory env rg SortByCategory))], None), fl)))
   \<and> (\<not> showVersion fl \<and> (\<forall>s t. write_error env s t = None) \<longrightarrow>
        (helpLevel fl = 1 \<longrightarrow> RunE env c h fl raw =
           ((Write Stderr UsageText # Write Stderr OptionsHeader
               # map summary_block
                   (named (ByCategory env (registries h (markerRegistry c)) SortByOption)),
             None), fl))
        \<and> (helpLevel fl = 2 \<longrightarrow> RunE env c h fl raw =
           ((Write Stderr UsageText # Write Stderr OptionsHeader
               # map (details_block False)
                   (named (ByCategory env (registries h (markerRegistry c)) SortByOption)),
             None), fl))
        \<and> (helpLevel fl = 3 \<longrightarrow> RunE env c h fl raw =
           ((Write Stderr UsageText # Write Stderr OptionsHeader
               # map (details_block True)
                   (named (ByCategory env (registries h (markerRegistry c)) SortByOption)),
             None), fl))
        \<and> (helpLevel fl = 4 \<longrightarrow> RunE env c h fl raw =
           (([Write Stderr UsageText, Write Stderr OptionsHeader,
              Write Stdout
                (JsonDocument
                   (ByCategory env (registries h (markerRegistry c)) SortByOption))],
             None), fl)))"
proof (intro conjI impI)
  show "helpForLevels env 0 reg sorter = ([], None)" by (rule helpForLevels_zero)
next
  assume "\<not> showVersion fl \<and> helpLevel fl = 0 \<and> whichLevel fl = 0"
  then have "fst (fst (RunE env c h fl raw)) = [CallFromOptions raw]
         \<or> fst (fst (RunE env c h fl raw)) = [CallFromOptions raw, RunGenerators]"
    using RunE_default by blast
  then show "list_all (\<lambda>e. \<not> is_write e) (fst (fst (RunE env c h fl raw)))" by auto
next
  assume ok: "\<forall>s t. write_error env s t = None"
  show "helpForLevels env 1 reg sorter
          = (map summary_block (named (ByCategory env reg sorter)), None)"
    by (rule helpForLevels_ok(1)[OF ok])
  show "helpForLevels env 2 reg sorter
          = (map (details_block False) (named (ByCategory env reg sorter)), None)"
    by (rule helpForLevels_ok(2)[OF ok])
  show "helpForLevels env 3 reg sorter
          = (map (details_block True) (named (ByCategory env reg sorter)), None)"
    by (rule helpForLevels_ok(3)[OF ok])
  show "helpForLevels env 4 reg sorter
          = ([Write Stdout (JsonDocument (ByCategory env reg sorter))], None)"
    by (rule helpForLevels_ok(4)[OF ok])
next
  show "prefix (fst (helpForLevels env 1 reg sorter))
        (map summary_block (named (ByCategory env reg sorter)))"
    by (simp only: helpForLevels_summary summary_loop_prefix)
next
  show "prefix (fst (helpForLevels env 2 reg sorter))
        (map (details_block False) (named (ByCategory env reg sorter)))"
    by (simp only: helpForLevels_detailed details_loop_prefix)
next
  show "prefix (fst (helpForLevels env 3 reg sorter))
        (map (details_block True) (named (ByCategory env reg sorter)))"
    by (simp only: helpForLevels_full details_loop_prefix)
next
  show "prefix (fst (helpForLevels env 4 reg sorter))
        [Write Stdout (JsonDocument (ByCategory env reg sorter))]"
    by (simp add: helpForLevels_def jsonHelp_def detailedHelp_def fullHelp_def
        summaryHelp_def Let_def split: option.splits)
next
  assume "RegistryFromOptions env reg raw = Inr reg'"
  then show "printMarkerDocs env reg raw lvl =
          (CallRegistryFromOptions raw # fst (helpForLevels env lvl reg' SortByCategory),
           snd (helpForLevels env lvl reg' SortByCategory))"
    by (rule printMarkerDocs_resolved)
next
  assume "(\<forall>s t. write_error env s t = None) \<and> 0 < helpLevel fl"
  then show "Usage env reg fl =
          ((Write Stderr UsageText # Write Stderr OptionsHeader
              # fst (helpForLevels env (helpLevel fl) reg SortByOption),
            snd (helpForLevels env (helpLevel fl) reg SortByOption)), fl)"
    by (simp add: Usage_def split: prod.splits)
next
  assume "\<not> showVersion fl \<and> helpLevel fl = 0 \<and> 0 < whichLevel fl
        \<and> RegistryFromOptions env (registries h (markerRegistry c)) raw = Inr rg"
  then show "RunE env c h fl raw =
          ((CallRegistryFromOptions raw
              # fst (helpForLevels env (whichLevel fl) rg SortByCategory),
            snd (helpForLevels env (whichLevel fl) rg SortByCategory)), fl)"
    using RunE_listing by blast
next
  assume "\<not> showVersion fl \<and> 0 < helpLevel fl
        \<and> write_error env Stderr UsageText = None
        \<and> write_error env Stderr OptionsHeader = None"
  then show "RunE env c h fl raw =
          ((Write Stderr UsageText # Write Stderr OptionsHeader
              # fst (helpForLevels env (helpLevel fl) (registries h (markerRegistry c))
                       SortByOption),
            snd (helpForLevels env (helpLevel fl) (registries h (markerRegistry c))
                   SortByOption)), fl)"
    using RunE_help by blast
next
  assume a: "\<not> showVersion fl \<and> helpLevel fl = 0
        \<and> RegistryFromOptions env (registries h (markerRegistry c)) raw = Inr rg
        \<and> (\<forall>s t. write_error env s t = None)"
  then have v: "\<not> showVersion fl" and hl: "helpLevel fl = 0"
    and r: "RegistryFromOptions env (registries h (markerRegistry c)) raw = Inr rg"
    and ok: "\<forall>s t. write_error env s t = None" by blast+
  {
    assume "whichLevel fl = 1"
    then show "RunE env c h fl raw =
           ((CallRegistryFromOptions raw
               # map summary_block (named (ByCategory env rg SortByCategory)), None), fl)"
      by (rule RunE_listing_levels(1)[OF v hl r ok])
  next
    assume "whichLevel fl = 2"
    then show "RunE env c h fl raw =
           ((CallRegistryFromOptions raw
               # map (details_block False) (named (ByCategory env rg SortByCategory)),
             None), fl)"
      by (rule RunE_listing_levels(2)[OF v hl r ok])
  next
    assume "whichLevel fl = 3"
    then show "RunE env c h fl raw =
           ((CallRegistryFromOptions raw
               # map (details_block True) (named (ByCategory env rg SortByCategory)),
             None), fl)"
      by (rule RunE_listing_levels(3)[OF v hl r ok])
  next
    assume "whichLevel fl = 4"
    then show "RunE env c h fl raw =
           (([CallRegistryFromOptions raw,
              Write Stdout (JsonDocument (ByCategory env rg SortByCategory))], None), fl)"
      by (rule RunE_listing_levels(4)[OF v hl r ok])
  }
next
  assume a: "\<not> showVersion fl \<and> (\<forall>s t. write_error env s t = None)"
  then have v: "\<not> showVersion fl" and ok: "\<forall>s t. write_error env s t = None" by blast+
  {
    assume "helpLevel fl = 1"
    then show "RunE env c h fl raw =
           ((Write Stderr UsageText # Write Stderr OptionsHeader
               # map summary_block
                   (named (ByCategory env (registries h (markerRegistry c)) SortByOption)),
             None), fl)"
      by (rule RunE_help_levels(1)[OF v ok])
  next
    assume "helpLevel fl = 2"
    then show "RunE env c h fl raw =
           ((Write Stderr UsageText # Write Stderr OptionsHeader
               # map (details_block False)
                   (named (ByCategory env (registries h (markerRegistry c)) SortByOption)),
             None), fl)"
      by (rule RunE_help_levels(2)[OF v ok])
  next
    assume "helpLevel fl = 3"
    then show "RunE env c h fl raw =
           ((Write Stderr UsageText # Write Stderr OptionsHeader
               # map (details_block True)
                   (named (ByCategory env (registries h (markerRegistry c)) SortByOption)),
             None), fl)"
      by (rule RunE_help_levels(3)[OF v ok])
  next
    assume "helpLevel fl = 4"
    then show "RunE env c h fl raw =
           (([Write Stderr UsageText, Write Stderr OptionsHeader,
              Write Stdout
                (JsonDocument
                   (ByCategory env (registries h (markerRegistry c)) SortByOption))],
             None), fl)"
      by (rule RunE_help_levels(4)[OF v ok])
  }
qed

theorem help_levels_witness:
  "(\<forall>s t. write_error demo_env s t = None)
   \<and> named demo_docs = [\<lparr>Category = ''generators'', Markers = [''obj'']\<rparr>]
   \<and> helpForLevels demo_env 1 demo_registry SortByCategory
       = ([Write Stderr (MarkersSummary ''generators'' [''obj''])], None)
   \<and> helpForLevels demo_env 2 demo_registry SortByCategory
       = ([Write Stderr (MarkersDetails False ''generators'' [''obj''])], None)
   \<and> helpForLevels demo_env 3 demo_registry SortByCategory
       = ([Write Stderr (MarkersDetails True ''generators'' [''obj''])], None)
   \<and> helpForLevels demo_env 4 demo_registry SortByCategory
       = ([Write Stdout (JsonDocument demo_docs)], None)
   \<and> printMarkerDocs demo_env demo_registry [] 3
       = ([CallRegistryFromOptions [],
           Write Stderr (MarkersDetails True ''generators'' [''obj''])], None)
   \<and> fst (fst (RunE demo_env demo_cmd demo_registered no_flags [''obj'']))
       = [CallFromOptions [''obj''], RunGenerators]
   \<and> RunE demo_env demo_cmd demo_registered (no_flags\<lparr>whichLevel := 1\<rparr>) []
       = (([CallRegistryFromOptions [],
            Write Stderr (MarkersSummary ''generators'' [''obj''])], None),
          no_flags\<lparr>whichLevel := 1\<rparr>)
   \<and> RunE demo_env demo_cmd demo_registered (no_flags\<lparr>whichLevel := 2\<rparr>) []
       = (([CallRegistryFromOptions [],
            Write Stderr (MarkersDetails False ''generators'' [''obj''])], None),
          no_flags\<lparr>whichLevel := 2\<rparr>)
   \<and> RunE demo_env demo_cmd demo_registered (no_flags\<lparr>whichLevel := 3\<rparr>) []
       = (([CallRegistryFromOptions [],
            Write Stderr (MarkersDetails True ''generators'' [''obj''])], None),
          no_flags\<lparr>whichLevel := 3\<rparr>)
   \<and> RunE demo_env demo_cmd demo_registered (no_flags\<lparr>whichLevel := 4\<rparr>) []
       = (([CallRegistryFromOptions [], Write Stdout (JsonDocument demo_docs)], None),
          no_flags\<lparr>whichLevel := 4\<rparr>)
   \<and> RunE demo_env demo_cmd demo_registered (no_flags\<lparr>helpLevel := 1\<rparr>) []
       = (([Write Stderr UsageText, Write Stderr OptionsHeader,
            Write Stderr (MarkersSummary ''generators'' [''obj''])], None),
          no_flags\<lparr>helpLevel := 1\<rparr>)
   \<and> RunE demo_env demo_cmd demo_registered (no_flags\<lparr>helpLevel := 2\<rparr>) []
       = (([Write Stderr UsageText, Write Stderr OptionsHeader,
            Write Stderr (MarkersDetails False ''generators'' [''obj''])], None),
          no_flags\<lparr>helpLevel := 2\<rparr>)
   \<and> RunE demo_env demo_cmd demo_registered (no_flags\<lparr>helpLevel := 3\<rparr>) []
       = (([Write Stderr UsageText, Write Stderr OptionsHeader,
            Write Stderr (MarkersDetails True ''generators'' [''obj''])], None),
          no_flags\<lparr>helpLevel := 3\<rparr>)
   \<and> RunE demo_env demo_cmd demo_registered (no_flags\<lparr>helpLevel := 4\<rparr>) []
       = (([Write Stderr UsageText, Write Stderr OptionsHeader,
            Write Stdout (JsonDocument demo_docs)], None),
          no_flags\<lparr>helpLevel := 4\<rparr>)"
proof -
  have n: "named demo_docs = [\<lparr>Category = ''generators'', Markers = [''obj'']\<rparr>]"
    by (simp add: named_def demo_docs_def)
  have b: "ByCategory demo_env demo_registry SortByCategory = demo_docs"
    "ByCategory demo_env demo_registry SortByOption = demo_docs"
    "RegistryFromOptions demo_env demo_registry [] = Inr demo_registry"
    by (simp_all add: demo_env_def)
  have g: "registries demo_registered (markerRegistry demo_cmd) = demo_registry"
    by (simp add: demo_registered_def demo_cmd_def)
  have r: "fst (fst (RunE demo_env demo_cmd demo_registered no_flags [''obj'']))
       = [CallFromOptions [''obj''], RunGenerators]"
    by (simp add: RunE_def no_flags_def demo_env_def)
  have base: "helpForLevels demo_env 1 demo_registry SortByCategory
       = ([Write Stderr (MarkersSummary ''generators'' [''obj''])], None)
   \<and> helpForLevels demo_env 2 demo_registry SortByCategory
       = ([Write Stderr (MarkersDetails False ''generators'' [''obj''])], None)
   \<and> helpForLevels demo_env 3 demo_registry SortByCategory
       = ([Write Stderr (MarkersDetails True ''generators'' [''obj''])], None)
   \<and> helpForLevels demo_env 4 demo_registry SortByCategory
       = ([Write Stdout (JsonDocument demo_docs)], None)
   \<and> printMarkerDocs demo_env demo_registry [] 3
       = ([CallRegistryFromOptions [],
           Write Stderr (MarkersDetails True ''generators'' [''obj''])], None)"
    using help_levels[where env = demo_env and reg = demo_registry and sorter = SortByCategory
        and fl = no_flags and c = demo_cmd and h = demo_registered and raw = "[]"
        and reg' = demo_registry and lvl = 3] demo_no_errors n b
    by (simp add: summary_block_def details_block_def)
  have w1: "RunE demo_env demo_cmd demo_registered (no_flags\<lparr>whichLevel := 1\<rparr>) []
       = (([CallRegistryFromOptions [],
            Write Stderr (MarkersSummary ''generators'' [''obj''])], None),
          no_flags\<lparr>whichLevel := 1\<rparr>)"
    using help_levels[where env = demo_env and fl = "no_flags\<lparr>whichLevel := 1\<rparr>"
        and c = demo_cmd and h = demo_registered and raw = "[]" and rg = demo_registry]
      demo_no_errors n b g
    by (simp add: summary_block_def details_block_def no_flags_def)
  have w2: "RunE demo_env demo_cmd demo_registered (no_flags\<lparr>whichLevel := 2\<rparr>) []
       = (([CallRegistryFromOptions [],
            Write Stderr (MarkersDetails False ''generators'' [''obj''])], None),
          no_flags\<lparr>whichLevel := 2\<rparr>)"
    using help_levels[where env = demo_env and fl = "no_flags\<lparr>whichLevel := 2\<rparr>"
        and c = demo_cmd and h = demo_registered and raw = "[]" and rg = demo_registry]
      demo_no_errors n b g
    by (simp add: summary_block_def details_block_def no_flags_def)
  have w3: "RunE demo_env demo_cmd demo_registered (no_flags\<lparr>whichLevel := 3\<rparr>) []
       = (([CallRegistryFromOptions [],
            Write Stderr (MarkersDetails True ''generators'' [''obj''])], None),
          no_flags\<lparr>whichLevel := 3\<rparr>)"
    using help_levels[where env = demo_env and fl = "no_flags\<lparr>whichLevel := 3\<rparr>"
        and c = demo_cmd and h = demo_registered and raw = "[]" and rg = demo_registry]
      demo_no_errors n b g
    by (simp add: summary_block_def details_block_def no_flags_def)
  have w4: "RunE demo_env demo_cmd demo_registered (no_flags\<lparr>whichLevel := 4\<rparr>) []
       = (([CallRegistryFromOptions [], Write Stdout (JsonDocument demo_docs)], None),
          no_flags\<lparr>whichLevel := 4\<rparr>)"
    using help_levels[where env = demo_env and fl = "no_flags\<lparr>whichLevel := 4\<rparr>"
        and c = demo_cmd and h = demo_registered and raw = "[]" and rg = demo_registry]
      demo_no_errors n b g
    by (simp add: summary_block_def details_block_def no_flags_def)
  have h1: "RunE demo_env demo_cmd demo_registered (no_flags\<lparr>helpLevel := 1\<rparr>) []
       = (([Write Stderr UsageText, Write Stderr OptionsHeader,
            Write Stderr (MarkersSummary ''generators'' [''obj''])], None),
          no_flags\<lparr>helpLevel := 1\<rparr>)"
    using help_levels[where env = demo_env and fl = "no_flags\<lparr>helpLevel := 1\<rparr>"
        and c = demo_cmd and h = demo_registered and raw = "[]"]
      demo_no_errors n b g
    by (simp add: summary_block_def details_block_def no_flags_def)
  have h2: "RunE demo_env demo_cmd demo_registered (no_flags\<lparr>helpLevel := 2\<rparr>) []
       = (([Write Stderr UsageText, Write Stderr OptionsHeader,
            Write Stderr (MarkersDetails False ''generators'' [''obj''])], None),
          no_flags\<lparr>helpLevel := 2\<rparr>)"
    using help_levels[where env = demo_env and fl = "no_flags\<lparr>helpLevel := 2\<rparr>"
        and c = demo_cmd and h = demo_registered and raw = "[]"]
      demo_no_errors n b g
    by (simp add: summary_block_def details_block_def no_flags_def)
  have h3: "RunE demo_env demo_cmd demo_registered (no_flags\<lparr>helpLevel := 3\<rparr>) []
       = (([Write Stderr UsageText, Write Stderr OptionsHeader,
            Write Stderr (MarkersDetails True ''generators'' [''obj''])], None),
          no_flags\<lparr>helpLevel := 3\<rparr>)"
    using help_levels[where env = demo_env and fl = "no_flags\<lparr>helpLevel := 3\<rparr>"
        and c = demo_cmd and h = demo_registered and raw = "[]"]
      demo_no_errors n b g
    by (simp add: summary_block_def details_block_def no_flags_def)
  have h4: "RunE demo_env demo_cmd demo_registered (no_flags\<lparr>helpLevel := 4\<rparr>) []
       = (([Write Stderr UsageText, Write Stderr OptionsHeader,
            Write Stdout (JsonDocument demo_docs)], None),
          no_flags\<lparr>helpLevel := 4\<rparr>)"
    using help_levels[where env = demo_env and fl = "no_flags\<lparr>helpLevel := 4\<rparr>"
        and c = demo_cmd and h = demo_registered and raw = "[]"]
      demo_no_errors n b g
    by (simp add: summary_block_def details_block_def no_flags_def)
  show ?thesis
    using demo_no_errors n r base w1 w2 w3 w4 h1 h2 h3 h4 by blast
qed

lemma details_loop_docs: "list_all is_marker_doc (fst (details_loop env fd cats))"
  by (induction cats) (auto simp: Let_def split: option.splits prod.splits)

lemma summary_loop_docs: "list_all is_marker_doc (fst (summary_loop env cats))"
  by (induction cats) (auto simp: Let_def split: option.splits prod.splits)

lemma helpForLevels_docs: "list_all is_marker_doc (fst (helpForLevels env lvl reg sorter))"
  by (simp add: helpForLevels_def Let_def details_loop_docs summary_loop_docs
      split: option.splits)

lemma helpForLevels_docs_pair:
  "helpForLevels env lvl reg sorter = (t, res) \<Longrightarrow> list_all is_marker_doc t"
  using helpForLevels_docs[of env lvl reg sorter] by simp

lemma Usage_trace:
  "list_all (\<lambda>e. e = Write Stderr UsageText \<or> e = Write Stderr OptionsHeader
                 \<or> is_marker_doc e) (fst (fst (Usage env reg fl)))"
  by (auto simp: Usage_def Let_def list_all_iff split: option.splits prod.splits
      dest!: helpForLevels_docs_pair)

lemma printMarkerDocs_docs:
  "\<exists>t. fst (printMarkerDocs env reg raw lvl) = CallRegistryFromOptions raw # t
       \<and> list_all is_marker_doc t"
  by (auto simp: printMarkerDocs_def Let_def split: sum.splits prod.splits
      dest: helpForLevels_docs_pair)

text \<open>
  Claim C7. The dispatcher takes the first branch whose condition holds. With the
  version flag it writes the version text and returns no error, whatever the
  counters are. Otherwise, with a help counter above zero it is the usage function:
  it writes the usage text, the options header and marker documentation, and calls
  neither the registry resolution nor the generation engine. Otherwise, with a
  listing counter above zero it is the marker listing: the registry resolution, then
  marker documentation only. Otherwise it resolves the runtime and, at most, runs
  the generators.
\<close>

theorem dispatcher_priority:
  "(showVersion fl \<longrightarrow> RunE env c h fl raw = (([Write Stdout VersionText], None), fl))
   \<and> (\<not> showVersion fl \<and> 0 < helpLevel fl \<longrightarrow>
        RunE env c h fl raw = Usage env (registries h (markerRegistry c)) fl
        \<and> list_all (\<lambda>e. e = Write Stderr UsageText \<or> e = Write Stderr OptionsHeader
                        \<or> is_marker_doc e) (fst (fst (RunE env c h fl raw))))
   \<and> (\<not> showVersion fl \<and> helpLevel fl = 0 \<and> 0 < whichLevel fl \<longrightarrow>
        RunE env c h fl raw =
          (printMarkerDocs env (registries h (markerRegistry c)) raw (whichLevel fl), fl)
        \<and> (\<exists>t. fst (fst (RunE env c h fl raw)) = CallRegistryFromOptions raw # t
                \<and> list_all is_marker_doc t))
   \<and> (\<not> showVersion fl \<and> helpLevel fl = 0 \<and> whichLevel fl = 0 \<longrightarrow>
        fst (fst (RunE env c h fl raw)) = [CallFromOptions raw]
        \<or> fst (fst (RunE env c h fl raw)) = [CallFromOptions raw, RunGenerators])"
proof (intro conjI impI)
  assume "showVersion fl"
  then show "RunE env c h fl raw = (([Write Stdout VersionText], None), fl)"
    by (simp add: RunE_def)
next
  assume a: "\<not> showVersion fl \<and> 0 < helpLevel fl"
  then show u: "RunE env c h fl raw = Usage env (registries h (markerRegistry c)) fl"
    by (simp add: RunE_def)
  show "list_all (\<lambda>e. e = Write Stderr UsageText \<or> e = Write Stderr OptionsHeader
                        \<or> is_marker_doc e) (fst (fst (RunE env c h fl raw)))"
    unfolding u by (rule Usage_trace)
next
  assume a: "\<not> showVersion fl \<and> helpLevel fl = 0 \<and> 0 < whichLevel fl"
  then show u: "RunE env c h fl raw =
          (printMarkerDocs env (registries h (markerRegistry c)) raw (whichLevel fl), fl)"
    by (simp add: RunE_def)
  show "\<exists>t. fst (fst (RunE env c h fl raw)) = CallRegistryFromOptions raw # t
                \<and> list_all is_marker_doc t"
    unfolding u using printMarkerDocs_docs by simp
next
  assume a: "\<not> showVersion fl \<and> helpLevel fl = 0 \<and> whichLevel fl = 0"
  then show "fst (fst (RunE env c h fl raw)) = [CallFromOptions raw]
        \<or> fst (fst (RunE env c h fl raw)) = [CallFromOptions raw, RunGenerators]"
    using RunE_default by blast
qed

theorem dispatcher_priority_witness:
  "RunE demo_env demo_cmd demo_registered
       \<lparr>showVersion = True, helpLevel = 2, whichLevel = 3\<rparr> [''obj'']
     = (([Write Stdout VersionText], None),
        \<lparr>showVersion = True, helpLevel = 2, whichLevel = 3\<rparr>)
   \<and> RunE demo_env demo_cmd demo_registered
       \<lparr>showVersion = False, helpLevel = 2, whichLevel = 3\<rparr> [''obj'']
     = (([Write Stderr UsageText, Write Stderr OptionsHeader,
          Write Stderr (MarkersDetails False ''generators'' [''obj''])], None),
        \<lparr>showVersion = False, helpLevel = 2, whichLevel = 3\<rparr>)
   \<and> RunE demo_env demo_cmd demo_registered
       \<lparr>showVersion = False, helpLevel = 0, whichLevel = 3\<rparr> [''obj'']
     = (([CallRegistryFromOptions [''obj''],
          Write Stderr (MarkersDetails True ''generators'' [''obj''])], None),
        \<lparr>showVersion = False, helpLevel = 0, whichLevel = 3\<rparr>)
   \<and> RunE demo_env demo_cmd demo_registered
       \<lparr>showVersion = False, helpLevel = 0, whichLevel = 0\<rparr> [''obj'']
     = (([CallFromOptions [''obj''], RunGenerators], None),
        \<lparr>showVersion = False, helpLevel = 0, whichLevel = 0\<rparr>)"
proof -
  have u: "Usage demo_env (registries demo_registered (markerRegistry demo_cmd))
             \<lparr>showVersion = False, helpLevel = 2, whichLevel = 3\<rparr>
     = (([Write Stderr UsageText, Write Stderr OptionsHeader,
          Write Stderr (MarkersDetails False ''generators'' [''obj''])], None),
        \<lparr>showVersion = False, helpLevel = 2, whichLevel = 3\<rparr>)"
    by (simp add: Usage_def demo_env_def helpForLevels_def jsonHelp_def detailedHelp_def
        fullHelp_def summaryHelp_def demo_docs_def Let_def)
  have p: "printMarkerDocs demo_env (registries demo_registered (markerRegistry demo_cmd))
             [''obj''] 3
     = ([CallRegistryFromOptions [''obj''],
          Write Stderr (MarkersDetails True ''generators'' [''obj''])], None)"
    by (simp add: printMarkerDocs_def demo_env_def helpForLevels_def jsonHelp_def
        detailedHelp_def fullHelp_def summaryHelp_def demo_docs_def Let_def)
  have r: "RunE demo_env demo_cmd demo_registered
       \<lparr>showVersion = False, helpLevel = 0, whichLevel = 0\<rparr> [''obj'']
     = (([CallFromOptions [''obj''], RunGenerators], None),
        \<lparr>showVersion = False, helpLevel = 0, whichLevel = 0\<rparr>)"
    by (simp add: RunE_def demo_env_def)
  show ?thesis
    using dispatcher_priority[where env = demo_env and c = demo_cmd and h = demo_registered
        and raw = "[''obj'']" and fl = "\<lparr>showVersion = True, helpLevel = 2, whichLevel = 3\<rparr>"]
      dispatcher_priority[where env = demo_env and c = demo_cmd and h = demo_registered
        and raw = "[''obj'']" and fl = "\<lparr>showVersion = False, helpLevel = 2, whichLevel = 3\<rparr>"]
      dispatcher_priority[where env = demo_env and c = demo_cmd and h = demo_registered
        and raw = "[''obj'']" and fl = "\<lparr>showVersion = False, helpLevel = 0, whichLevel = 3\<rparr>"]
      u p r
    by simp
qed

lemma RunE_no_generators:
  assumes "\<not> showVersion fl" "helpLevel fl = 0" "whichLevel fl = 0"
    and "FromOptions env (registries h (markerRegistry c)) raw = Inr rt"
    and "Generators rt = []"
  shows "RunE env c h fl raw =
           (([CallFromOptions raw], Some (ErrorString ''no generators specified'')), fl)"
  using assms by (simp add: RunE_def)

lemma Usage_text_first:
  "write_error env Stderr UsageText = None \<Longrightarrow>
   \<exists>t. fst (fst (Usage env reg fl)) = Write Stderr UsageText # t"
  by (auto simp: Usage_def Let_def split: option.splits prod.splits)

lemma Usage_text_fails:
  "write_error env Stderr UsageText = Some e \<Longrightarrow> Usage env reg fl = (([], Some e), fl)"
  by (simp add: Usage_def)

text \<open>
  Claim C8. When the invocation reaches the resolution of the options (no version
  flag, both counters zero) and the resolved runtime has no generator, the
  dispatcher returns the error \<open>no generators specified\<close>, which is not
  usage-suppressed. The handler then calls the usage function, so the usage text
  is written unless that write fails, in which case the process panics; in every
  case the process ends with a status that is not zero.
\<close>

theorem no_generators_specified:
  assumes reg: "register eng c h = Inr h'"
    and fl: "\<not> showVersion fl" "helpLevel fl = 0" "whichLevel fl = 0"
    and rt: "FromOptions env (registries h' (markerRegistry c)) raw = Inr rt"
    and none: "Generators rt = []"
  shows "RunE env c h' fl raw =
           (([CallFromOptions raw], Some (ErrorString ''no generators specified'')), fl)
         \<and> \<not> errors_Is (ErrorString ''no generators specified'') (NoUsageError None)
         \<and> failed (snd (Run eng env c h fl raw))
         \<and> (write_error env Stderr UsageText = None \<longrightarrow>
              (\<exists>t. fst (Run eng env c h fl raw)
                      = CallFromOptions raw # Write Stderr UsageText # t))
         \<and> (\<forall>e. write_error env Stderr UsageText = Some e \<longrightarrow>
              Run eng env c h fl raw = ([CallFromOptions raw], Panicked (PanicError e)))
         \<and> ((\<forall>s t. write_error env s t = None) \<longrightarrow>
              Run eng env c h fl raw =
                (CallFromOptions raw # Write Stderr UsageText # Write Stderr OptionsHeader
                   # map summary_block
                       (named (ByCategory env (registries h' (markerRegistry c)) SortByOption))
                   @ [Write Stderr HintLine],
                 Exited 1))"
proof -
  let ?reg = "registries h' (markerRegistry c)"
  have r: "RunE env c h' fl raw =
           (([CallFromOptions raw], Some (ErrorString ''no generators specified'')), fl)"
    using RunE_no_generators[OF fl rt none] .
  have f: "failed (snd (Run eng env c h fl raw))"
    by (simp add: Run_def reg r Let_def failed_def split: option.splits)
  have u: "write_error env Stderr UsageText = None \<longrightarrow>
              (\<exists>t. fst (Run eng env c h fl raw)
                      = CallFromOptions raw # Write Stderr UsageText # t)"
  proof
    assume w: "write_error env Stderr UsageText = None"
    from Usage_text_first[OF w, of ?reg fl]
    obtain t where t: "fst (fst (Usage env ?reg fl)) = Write Stderr UsageText # t" by blast
    show "\<exists>t. fst (Run eng env c h fl raw) = CallFromOptions raw # Write Stderr UsageText # t"
      by (simp add: Run_def reg r Let_def t split: option.splits)
  qed
  have p: "\<forall>e. write_error env Stderr UsageText = Some e \<longrightarrow>
              Run eng env c h fl raw = ([CallFromOptions raw], Panicked (PanicError e))"
    by (simp add: Run_def reg r Let_def Usage_text_fails)
  have a: "(\<forall>s t. write_error env s t = None) \<longrightarrow>
              Run eng env c h fl raw =
                (CallFromOptions raw # Write Stderr UsageText # Write Stderr OptionsHeader
                   # map summary_block (named (ByCategory env ?reg SortByOption))
                   @ [Write Stderr HintLine],
                 Exited 1)"
  proof
    assume ok: "\<forall>s t. write_error env s t = None"
    have "helpForLevels env summaryHelp ?reg SortByOption
            = (map summary_block (named (ByCategory env ?reg SortByOption)), None)"
      unfolding summaryHelp_def helpForLevels_summary by (rule summary_loop_ok[OF ok])
    then have "Usage env ?reg fl =
            ((Write Stderr UsageText # Write Stderr OptionsHeader
                # map summary_block (named (ByCategory env ?reg SortByOption)), None),
             fl\<lparr>helpLevel := summaryHelp\<rparr>)"
      using ok fl by (simp add: Usage_def)
    then show "Run eng env c h fl raw =
                (CallFromOptions raw # Write Stderr UsageText # Write Stderr OptionsHeader
                   # map summary_block (named (ByCategory env ?reg SortByOption))
                   @ [Write Stderr HintLine],
                 Exited 1)"
      using ok by (simp add: Run_def reg r Let_def)
  qed
  show ?thesis using r f u p a by simp
qed

theorem no_generators_specified_witness:
  "register demo_engine demo_cmd demo_heap = Inr demo_registered
   \<and> FromOptions demo_env (registries demo_registered (markerRegistry demo_cmd)) []
       = Inr \<lparr>Generators = [], hadErrs = False\<rparr>
   \<and> RunE demo_env demo_cmd demo_registered no_flags []
       = (([CallFromOptions []], Some (ErrorString ''no generators specified'')), no_flags)
   \<and> Run demo_engine demo_env demo_cmd demo_heap no_flags []
       = ([CallFromOptions [], Write Stderr UsageText, Write Stderr OptionsHeader,
           Write Stderr (MarkersSummary ''generators'' [''obj'']), Write Stderr HintLine],
          Exited 1)
   \<and> failed (snd (Run demo_engine demo_env demo_cmd demo_heap no_flags []))"
proof -
  have fo: "FromOptions demo_env (registries demo_registered (markerRegistry demo_cmd)) []
       = Inr \<lparr>Generators = [], hadErrs = False\<rparr>"
    by (simp add: demo_env_def)
  have fl: "\<not> showVersion no_flags" "helpLevel no_flags = 0" "whichLevel no_flags = 0"
    by (simp_all add: no_flags_def)
  have n: "named (ByCategory demo_env (registries demo_registered (markerRegistry demo_cmd))
             SortByOption) = [\<lparr>Category = ''generators'', Markers = [''obj'']\<rparr>]"
    by (simp add: named_def demo_env_def demo_docs_def)
  show ?thesis
    using no_generators_specified[OF demo_register fl fo, of] demo_register fo
      demo_no_errors n
    by (simp add: summary_block_def failed_def)
qed

lemma errors_Is_zero_noUsageError:
  "errors_Is (NoUsageError (Some e)) (NoUsageError None) = False"
  by simp

lemma aggregate_failure_calls_usage:
  assumes reg: "register eng c h = Inr h'"
    and fl: "\<not> showVersion fl" "helpLevel fl = 0" "whichLevel fl = 0"
    and rt: "FromOptions env (registries h' (markerRegistry c)) raw = Inr rt"
    and some: "Generators rt \<noteq> []" and errs: "hadErrs rt"
    and w: "write_error env Stderr UsageText = None"
  shows "\<exists>t. fst (Run eng env c h fl raw)
               = CallFromOptions raw # RunGenerators # Write Stderr UsageText # t"
proof -
  have r: "RunE env c h' fl raw =
             (([CallFromOptions raw, RunGenerators],
               Some (NoUsageError
                 (Some (ErrorString ''not all generators ran successfully'')))), fl)"
    using fl rt some errs by (simp add: RunE_def)
  from Usage_text_first[OF w, of "registries h' (markerRegistry c)" fl]
  obtain t where t: "fst (fst (Usage env (registries h' (markerRegistry c)) fl))
                       = Write Stderr UsageText # t" by blast
  show ?thesis
    by (simp add: Run_def reg r Let_def t split: option.splits)
qed

text \<open>
  Claim C2, at an invocation of the demo tool whose generator run reports errors:
  the dispatcher returns the usage-suppressed error, but \<open>errors.Is\<close> against the zero
  value of \<open>noUsageError\<close> does not match it, and the handler writes the usage text
  before the hint. The handler does so at every such invocation of every tool.
\<close>

theorem aggregate_failure_prints_usage:
  "RunE demo_env demo_cmd demo_registered no_flags [''broken'']
     = (([CallFromOptions [''broken''], RunGenerators],
         Some (NoUsageError (Some (ErrorString ''not all generators ran successfully'')))),
        no_flags)
   \<and> errors_Is (NoUsageError (Some (ErrorString ''not all generators ran successfully'')))
        (NoUsageError None) = False
   \<and> Run demo_engine demo_env demo_cmd demo_heap no_flags [''broken''] =
       ([CallFromOptions [''broken''], RunGenerators,
         Write Stderr UsageText, Write Stderr OptionsHeader,
         Write Stderr (MarkersSummary ''generators'' [''obj'']),
         Write Stderr HintLine], Exited 1)"
  by (simp add: Run_def demo_register RunE_def no_flags_def demo_env_def Usage_def
      helpForLevels_def summaryHelp_def jsonHelp_def detailedHelp_def fullHelp_def
      demo_docs_def Let_def)

section \<open>Title and the runes of a string\<close>

lemma mod_offset: "q < m \<Longrightarrow> (k * m + q) mod m = (q::nat)" by simp

lemma lead_two_mod: "q < 32 \<Longrightarrow> (192 + q) mod 32 = (q::nat)" using mod_offset[of q 32 6] by simp
lemma lead_three_mod: "q < 16 \<Longrightarrow> (224 + q) mod 16 = (q::nat)" using mod_offset[of q 16 14] by simp
lemma lead_four_mod: "q < 8 \<Longrightarrow> (240 + q) mod 8 = (q::nat)" using mod_offset[of q 8 30] by simp
lemma continuation_mod: "(128 + q mod 64) mod 64 = (q::nat) mod 64" using mod_offset[of "q mod 64" 64 2] by simp

lemma shift_two_digits: "(x * 64 + y) * 64 = x * 4096 + y * (64::nat)"
  by simp

lemma shift_three_digits: "(x * 64 + y) * 4096 = x * 262144 + y * (4096::nat)"
  by simp

lemma digits_of_three: "(n div 4096) * 4096 + ((n div 64) mod 64) * 64 + n mod 64 = (n::nat)"
proof -
  define q where "q = n div 64"
  have a: "n div 4096 = q div 64" by (simp add: q_def div_mult2_eq)
  have "q div 64 * 4096 + q mod 64 * 64 = (q div 64 * 64 + q mod 64) * 64"
    by (rule shift_two_digits[symmetric])
  also have "\<dots> = q * 64" by simp
  finally show ?thesis by (simp add: a q_def)
qed

lemma digits_of_four: "(n div 262144) * 262144 + ((n div 4096) mod 64) * 4096
           + ((n div 64) mod 64) * 64 + n mod 64 = (n::nat)"
proof -
  define q where "q = n div 4096"
  have a: "n div 262144 = q div 64" by (simp add: q_def div_mult2_eq)
  have "q div 64 * 262144 + q mod 64 * 4096 = (q div 64 * 64 + q mod 64) * 4096"
    by (rule shift_three_digits[symmetric])
  also have "\<dots> = q * 4096" by simp
  finally show ?thesis using digits_of_three[of n] by (simp add: a q_def)
qed

lemma div_64_less: "n < 2048 \<Longrightarrow> n div 64 < (32::nat)" by (simp add: less_mult_imp_div_less)
lemma div_64_ge: "128 \<le> n \<Longrightarrow> 2 \<le> n div (64::nat)" by (simp add: less_eq_div_iff_mult_less_eq)
lemma div_4096_less: "n < 65536 \<Longrightarrow> n div 4096 < (16::nat)" by (simp add: less_mult_imp_div_less)
lemma div_262144_less: "n < 1114112 \<Longrightarrow> n div 262144 < (5::nat)" by (simp add: less_mult_imp_div_less)

lemma decode_one: "b0 < 128 \<Longrightarrow> decode_rune b0 bs = (int b0, bs)"
  by (simp add: decode_rune_def)

lemma decode_two:
  "194 \<le> b0 \<Longrightarrow> b0 \<le> 223 \<Longrightarrow> continuation b1 \<Longrightarrow>
   decode_rune b0 (b1 # bs) = (int ((b0 mod 32) * 64 + b1 mod 64), bs)"
  by (simp add: decode_rune_def)

lemma decode_three:
  "224 \<le> b0 \<Longrightarrow> b0 \<le> 239 \<Longrightarrow> second_of_three b0 b1 \<Longrightarrow> continuation b2 \<Longrightarrow>
   decode_rune b0 (b1 # b2 # bs) = (int ((b0 mod 16) * 4096 + (b1 mod 64) * 64 + b2 mod 64), bs)"
  by (simp add: decode_rune_def)

lemma decode_four:
  "240 \<le> b0 \<Longrightarrow> b0 \<le> 244 \<Longrightarrow> second_of_four b0 b1 \<Longrightarrow> continuation b2 \<Longrightarrow>
   continuation b3 \<Longrightarrow>
   decode_rune b0 (b1 # b2 # b3 # bs) =
     (int ((b0 mod 8) * 262144 + (b1 mod 64) * 4096 + (b2 mod 64) * 64 + b3 mod 64), bs)"
  by (simp add: decode_rune_def)

lemma continuation_low: "continuation (128 + q mod 64)"
  by (simp add: continuation_def)

lemma decode_replacement:
  "decode_rune 239 (191 # 189 # bs) = (RuneError, bs)"
proof -
  have "decode_rune 239 (191 # 189 # bs)
        = (int ((239 mod 16) * 4096 + (191 mod 64) * 64 + 189 mod 64), bs)"
    by (rule decode_three) (simp_all add: second_of_three_def continuation_def)
  then show ?thesis by (simp add: RuneError_def)
qed

lemma decode_encode_nat_two:
  assumes "128 \<le> n" "n < 2048"
  shows "decode_rune (192 + n div 64) ((128 + n mod 64) # bs) = (int n, bs)"
proof -
  have q: "n div 64 < 32" "2 \<le> n div 64" using assms div_64_less div_64_ge by auto
  have "decode_rune (192 + n div 64) ((128 + n mod 64) # bs)
          = (int (((192 + n div 64) mod 32) * 64 + (128 + n mod 64) mod 64), bs)"
    using q by (intro decode_two continuation_low) simp_all
  then show ?thesis using q by (simp add: lead_two_mod continuation_mod)
qed

lemma mod_64_offset: "b < 64 \<Longrightarrow> (128 + b) mod 64 = (b::nat)"
  using mod_offset[of b 64 2] by simp

lemma decode_digits_three:
  assumes n: "n = a * 4096 + b * 64 + c" and lt: "a < 16" "b < 64" "c < 64"
    and lo: "2048 \<le> n" and sur: "\<not> (55296 \<le> n \<and> n \<le> 57343)"
  shows "decode_rune (224 + a) ((128 + b) # (128 + c) # bs) = (int n, bs)"
proof -
  have s3: "second_of_three (224 + a) (128 + b)"
  proof -
    have "a = 0 \<Longrightarrow> 32 \<le> b" using n lt lo by linarith
    moreover have "a = 13 \<Longrightarrow> b < 32" using n lt sur by linarith
    ultimately show ?thesis using lt by (auto simp: second_of_three_def continuation_def)
  qed
  have "decode_rune (224 + a) ((128 + b) # (128 + c) # bs)
          = (int (((224 + a) mod 16) * 4096 + ((128 + b) mod 64) * 64 + (128 + c) mod 64), bs)"
    using lt s3 by (intro decode_three) (simp_all add: continuation_def)
  then show ?thesis using lt by (simp add: lead_three_mod mod_64_offset n)
qed

lemma decode_digits_four:
  assumes n: "n = a * 262144 + b * 4096 + c * 64 + d" and lt: "a < 5" "b < 64" "c < 64" "d < 64"
    and lo: "65536 \<le> n" and hi: "n \<le> 1114111"
  shows "decode_rune (240 + a) ((128 + b) # (128 + c) # (128 + d) # bs) = (int n, bs)"
proof -
  have s4: "second_of_four (240 + a) (128 + b)"
  proof -
    have "a = 0 \<Longrightarrow> 16 \<le> b" using n lt lo by linarith
    moreover have "a = 4 \<Longrightarrow> b < 16" using n lt hi by linarith
    ultimately show ?thesis using lt by (auto simp: second_of_four_def continuation_def)
  qed
  have "decode_rune (240 + a) ((128 + b) # (128 + c) # (128 + d) # bs)
          = (int (((240 + a) mod 8) * 262144 + ((128 + b) mod 64) * 4096
                  + ((128 + c) mod 64) * 64 + (128 + d) mod 64), bs)"
    using lt s4 by (intro decode_four) (simp_all add: continuation_def)
  then show ?thesis using lt by (simp add: lead_four_mod mod_64_offset n)
qed

lemma decode_encode:
  "decode_rune (hd (encode_rune r)) (tl (encode_rune r) @ bs) = (sanitize r, bs)"
proof -
  define n where "n = nat r"
  consider (neg) "r < 0" | (a) "r = int n" "n < 128" | (b) "r = int n" "128 \<le> n" "n < 2048"
    | (c) "r = int n" "2048 \<le> n" "\<not> valid_rune r"
    | (d) "r = int n" "valid_rune r" "2048 \<le> n" "n < 65536"
    | (e) "r = int n" "valid_rune r" "65536 \<le> n"
    unfolding valid_rune_def n_def by linarith
  then show ?thesis
  proof cases
    case neg
    then have e: "encode_rune r = [239, 191, 189]"
      by (simp add: encode_rune_def valid_rune_def)
    show ?thesis using neg by (simp add: e decode_replacement sanitize_def valid_rune_def)
  next
    case a
    have e: "encode_rune r = [n]" using a by (simp add: encode_rune_def)
    have s: "sanitize r = int n" using a by (simp add: sanitize_def valid_rune_def)
    show ?thesis by (simp add: e s decode_one a(2))
  next
    case b
    have e: "encode_rune r = [192 + n div 64, 128 + n mod 64]"
      using b by (simp add: encode_rune_def)
    have s: "sanitize r = int n" using b by (simp add: sanitize_def valid_rune_def)
    show ?thesis by (simp add: e s decode_encode_nat_two[OF b(2,3)])
  next
    case c
    have e: "encode_rune r = [239, 191, 189]"
      using c by (simp add: encode_rune_def)
    show ?thesis using c(3) by (simp add: e decode_replacement sanitize_def)
  next
    case d
    have e: "encode_rune r = [224 + n div 4096, 128 + (n div 64) mod 64, 128 + n mod 64]"
      using d by (simp add: encode_rune_def)
    have s: "sanitize r = int n" using d by (simp add: sanitize_def)
    have sur: "\<not> (55296 \<le> n \<and> n \<le> 57343)" using d by (simp add: valid_rune_def)
    have "decode_rune (224 + n div 4096) ((128 + (n div 64) mod 64) # (128 + n mod 64) # bs)
          = (int n, bs)"
      by (rule decode_digits_three[OF digits_of_three[symmetric] div_4096_less[OF d(4)] _ _ d(3) sur]) simp_all
    then show ?thesis by (simp add: e s)
  next
    case e
    have enc: "encode_rune r = [240 + n div 262144, 128 + (n div 4096) mod 64,
         128 + (n div 64) mod 64, 128 + n mod 64]"
      using e by (simp add: encode_rune_def)
    have s: "sanitize r = int n" using e by (simp add: sanitize_def)
    have hi: "n \<le> 1114111" using e by (simp add: valid_rune_def)
    then have q: "n div 262144 < 5" using div_262144_less[of n] by simp
    have "decode_rune (240 + n div 262144)
            ((128 + (n div 4096) mod 64) # (128 + (n div 64) mod 64) # (128 + n mod 64) # bs)
          = (int n, bs)"
      by (rule decode_digits_four[OF digits_of_four[symmetric] q _ _ _ e(3) hi]) simp_all
    then show ?thesis by (simp add: enc s)
  qed
qed

lemma encode_rune_nonempty: "encode_rune r \<noteq> []"
  by (simp add: encode_rune_def Let_def)

lemma runes_of_bytes_encode:
  "runes_of_bytes (encode_rune r @ bs) = sanitize r # runes_of_bytes bs"
proof -
  obtain b0 tl0 where e: "encode_rune r = b0 # tl0"
    using encode_rune_nonempty[of r] by (cases "encode_rune r") auto
  from decode_encode[of r bs] have "decode_rune b0 (tl0 @ bs) = (sanitize r, bs)"
    by (simp add: e)
  then show ?thesis by (simp add: e)
qed

lemma runes_of_bytes_concat:
  "runes_of_bytes (concat (map encode_rune rs)) = map sanitize rs"
  by (induction rs) (simp_all add: runes_of_bytes_encode)

lemma continuation_byte: "x < 64 \<Longrightarrow> 128 + x < (256::nat)"
  by simp

lemma low_byte: "128 + k mod 64 < (256::nat)"
  by (rule continuation_byte) simp

lemma encode_rune_bytes: "list_all (\<lambda>b. b < 256) (encode_rune r)"
proof -
  define n where "n = nat r"
  consider (neg) "r < 0" | (a) "r = int n" "n < 128" | (b) "r = int n" "128 \<le> n" "n < 2048"
    | (c) "r = int n" "2048 \<le> n" "\<not> valid_rune r"
    | (d) "r = int n" "valid_rune r" "2048 \<le> n" "n < 65536"
    | (e) "r = int n" "valid_rune r" "65536 \<le> n"
    unfolding valid_rune_def n_def by linarith
  then show ?thesis
  proof cases
    case neg
    then have "encode_rune r = [239, 191, 189]"
      by (simp add: encode_rune_def valid_rune_def)
    then show ?thesis by simp
  next
    case a
    then have "encode_rune r = [n]" by (simp add: encode_rune_def)
    then show ?thesis using a(2) by simp
  next
    case b
    then have "encode_rune r = [192 + n div 64, 128 + n mod 64]" by (simp add: encode_rune_def)
    moreover have "192 + n div 64 < 256" using div_64_less[OF b(3)] by simp
    ultimately show ?thesis using low_byte by simp
  next
    case c
    then have "encode_rune r = [239, 191, 189]" by (simp add: encode_rune_def)
    then show ?thesis by simp
  next
    case d
    then have "encode_rune r = [224 + n div 4096, 128 + (n div 64) mod 64, 128 + n mod 64]"
      by (simp add: encode_rune_def)
    moreover have "224 + n div 4096 < 256" using div_4096_less[OF d(4)] by simp
    ultimately show ?thesis using low_byte by simp
  next
    case e
    then have "encode_rune r = [240 + n div 262144, 128 + (n div 4096) mod 64,
         128 + (n div 64) mod 64, 128 + n mod 64]"
      by (simp add: encode_rune_def)
    moreover have "n div 262144 < 5" using e div_262144_less[of n] by (simp add: valid_rune_def)
    then have "240 + n div 262144 < 256" by simp
    ultimately show ?thesis using low_byte by simp
  qed
qed

lemma of_char_char_of_bytes:
  "list_all (\<lambda>b. b < 256) bs \<Longrightarrow> map (\<lambda>b. (of_char (char_of b) :: nat)) bs = bs"
  by (induction bs) simp_all

lemma concat_bytes:
  "list_all (\<lambda>b. b < 256) (concat (map encode_rune rs))"
  by (induction rs) (simp_all add: encode_rune_bytes)

lemma bytes_of_string_of:
  "map of_char (string_of rs) = concat (map encode_rune rs)"
  using of_char_char_of_bytes[OF concat_bytes[of rs]]
  by (simp add: string_of_def comp_def)

lemma runes_of_string_of: "runes_of (string_of rs) = map sanitize rs"
  by (simp add: runes_of_def bytes_of_string_of runes_of_bytes_concat)

lemma valid_two:
  assumes "194 \<le> b0" "b0 \<le> 223" "continuation b1"
  shows "valid_rune (int ((b0 mod 32) * 64 + b1 mod 64))"
proof -
  define a where "a = b0 - 192"
  define b where "b = b1 - 128"
  have b0: "b0 = 192 + a" "a < 32" using assms by (auto simp: a_def)
  have b1: "b1 = 128 + b" "b < 64" using assms by (auto simp: b_def continuation_def)
  have "a * 64 + b < 2048" using b0 b1 by linarith
  then show ?thesis using b0 b1 by (simp add: lead_two_mod mod_64_offset valid_rune_def)
qed

lemma valid_three:
  assumes "224 \<le> b0" "b0 \<le> 239" "second_of_three b0 b1" "continuation b2"
  shows "valid_rune (int ((b0 mod 16) * 4096 + (b1 mod 64) * 64 + b2 mod 64))"
proof -
  define a where "a = b0 - 224"
  define b where "b = b1 - 128"
  define c where "c = b2 - 128"
  have b0: "b0 = 224 + a" "a < 16" using assms by (auto simp: a_def)
  have b1: "b1 = 128 + b" "b < 64"
    using assms by (auto simp: b_def second_of_three_def continuation_def split: if_splits)
  have b2: "b2 = 128 + c" "c < 64" using assms by (auto simp: c_def continuation_def)
  have thirteen: "a = 13 \<Longrightarrow> b < 32"
    using assms(3) b0 b1 by (simp add: second_of_three_def)
  consider "a < 13" | "a = 13" | "13 < a" by linarith
  then have "a * 4096 + b * 64 + c < 55296 \<or> 57343 < a * 4096 + b * 64 + c"
  proof cases
    case 1
    then show ?thesis using b1 b2 by linarith
  next
    case 2
    then show ?thesis using thirteen b2 by linarith
  next
    case 3
    then show ?thesis by linarith
  qed
  moreover have "a * 4096 + b * 64 + c < 65536" using b0 b1 b2 by linarith
  ultimately show ?thesis
    using b0 b1 b2 by (auto simp: lead_three_mod mod_64_offset valid_rune_def)
qed

lemma valid_four:
  assumes "240 \<le> b0" "b0 \<le> 244" "second_of_four b0 b1" "continuation b2" "continuation b3"
  shows "valid_rune (int ((b0 mod 8) * 262144 + (b1 mod 64) * 4096
                          + (b2 mod 64) * 64 + b3 mod 64))"
proof -
  define a where "a = b0 - 240"
  define b where "b = b1 - 128"
  define c where "c = b2 - 128"
  define d where "d = b3 - 128"
  have b0: "b0 = 240 + a" "a < 5" using assms by (auto simp: a_def)
  have b1: "b1 = 128 + b" "b < 64"
    using assms by (auto simp: b_def second_of_four_def continuation_def split: if_splits)
  have b2: "b2 = 128 + c" "c < 64" using assms by (auto simp: c_def continuation_def)
  have b3: "b3 = 128 + d" "d < 64" using assms by (auto simp: d_def continuation_def)
  have "a = 4 \<Longrightarrow> b < 16"
    using assms(3) b0 b1 by (simp add: second_of_four_def)
  then have hi: "a * 262144 + b * 4096 + c * 64 + d \<le> 1114111"
    using b0 b1 b2 b3 by linarith
  have "a = 0 \<Longrightarrow> 16 \<le> b"
    using assms(3) b0 b1 by (simp add: second_of_four_def)
  then have lo: "57343 < a * 262144 + b * 4096 + c * 64 + d"
    using b0 b1 b2 b3 by linarith
  have a8: "(240 + a) mod 8 = a" using b0 by (simp add: lead_four_mod)
  show ?thesis
    using hi lo b0 b1 b2 b3 by (simp add: a8 mod_64_offset valid_rune_def)
qed

lemma valid_RuneError: "valid_rune RuneError"
  by (simp add: valid_rune_def RuneError_def)

lemma decode_rune_valid: "decode_rune b0 bs = (r, rest) \<Longrightarrow> valid_rune r"
  unfolding decode_rune_def
  by (auto simp del: of_nat_add of_nat_mult
      simp add: valid_RuneError valid_two valid_three valid_four
      split: if_splits list.splits)
     (simp add: valid_rune_def)

lemma runes_of_bytes_valid: "list_all valid_rune (runes_of_bytes bs)"
proof (induction bs rule: runes_of_bytes.induct)
  case 1
  then show ?case by simp
next
  case (2 b0 bs)
  obtain r rest where d: "decode_rune b0 bs = (r, rest)" by (cases "decode_rune b0 bs")
  from 2[OF d[symmetric]] have "list_all valid_rune (runes_of_bytes rest)" .
  with decode_rune_valid[OF d] show ?case by (simp add: d)
qed

lemma sanitize_valid: "list_all valid_rune rs \<Longrightarrow> map sanitize rs = rs"
  by (induction rs) (simp_all add: sanitize_def)

lemma runes_of_nonempty: "s \<noteq> [] \<Longrightarrow> runes_of s \<noteq> []"
  by (cases s) (simp_all add: runes_of_def split: prod.splits)

text \<open>
  Claim C10. \<open>Title\<close> of the empty string panics on the index 0. For a string that
  is not empty it returns a string whose runes are the runes of the argument with
  the first one replaced by its upper case (by \<open>RuneError\<close>, should the upper case
  be no Unicode scalar). When the argument is the encoding of valid runes, the
  result is the encoding of the same runes with the first one replaced.
\<close>

theorem Title_first_rune:
  "Title up [] = Inl IndexOutOfRange
   \<and> (s \<noteq> [] \<longrightarrow>
        (\<exists>r rest t. runes_of s = r # rest \<and> Title up s = Inr t
                    \<and> runes_of t = sanitize (up r) # rest
                    \<and> (valid_rune (up r) \<longrightarrow> runes_of t = up r # rest)))
   \<and> (list_all valid_rune (r0 # rs) \<longrightarrow>
        Title up (string_of (r0 # rs)) = Inr (string_of (up r0 # rs)))"
proof (intro conjI impI)
  show "Title up [] = Inl IndexOutOfRange"
    by (simp add: Title_def runes_of_def)
next
  assume "s \<noteq> []"
  then obtain r rest where rs: "runes_of s = r # rest"
    using runes_of_nonempty[of s] by (cases "runes_of s") auto
  have "list_all valid_rune (runes_of s)"
    unfolding runes_of_def by (rule runes_of_bytes_valid)
  then have v: "list_all valid_rune rest" by (simp add: rs)
  have t: "Title up s = Inr (string_of (up r # rest))"
    by (simp add: Title_def rs)
  have d: "runes_of (string_of (up r # rest)) = sanitize (up r) # rest"
    using sanitize_valid[OF v] by (simp add: runes_of_string_of)
  then have "valid_rune (up r) \<longrightarrow> runes_of (string_of (up r # rest)) = up r # rest"
    by (simp add: sanitize_def)
  with rs t d show "\<exists>r rest t. runes_of s = r # rest \<and> Title up s = Inr t
                    \<and> runes_of t = sanitize (up r) # rest
                    \<and> (valid_rune (up r) \<longrightarrow> runes_of t = up r # rest)"
    by blast
next
  assume v: "list_all valid_rune (r0 # rs)"
  have "runes_of (string_of (r0 # rs)) = r0 # rs"
    using sanitize_valid[OF v] by (simp only: runes_of_string_of)
  then show "Title up (string_of (r0 # rs)) = Inr (string_of (up r0 # rs))"
    by (simp add: Title_def)
qed

lemma runes_of_obj: "runes_of ''obj'' = [111, 98, 106]"
  by (simp add: runes_of_def decode_rune_def)

lemma string_of_Obj: "string_of [79, 98, 106] = ''Obj''"
  by (simp add: string_of_def encode_rune_def char_of_eq_iff)

lemma runes_of_invalid: "runes_of [CHR 0xFF] = [RuneError]"
  by (simp add: runes_of_def decode_rune_def)

theorem Title_first_rune_witness:
  "Title ascii_upper [] = Inl IndexOutOfRange
   \<and> ''obj'' \<noteq> []
   \<and> runes_of ''obj'' = [111, 98, 106]
   \<and> ascii_upper 111 = 79
   \<and> Title ascii_upper ''obj'' = Inr ''Obj''
   \<and> runes_of ''Obj'' = [79, 98, 106]
   \<and> Title ascii_upper [CHR 0xFF] = Inr [CHR 0xEF, CHR 0xBF, CHR 0xBD]"
proof -
  have u: "ascii_upper 111 = 79" by (simp add: ascii_upper_def)
  have t: "Title ascii_upper ''obj'' = Inr ''Obj''"
    by (simp add: Title_def runes_of_obj u string_of_Obj)
  have i: "Title ascii_upper [CHR 0xFF] = Inr [CHR 0xEF, CHR 0xBF, CHR 0xBD]"
    by (simp add: Title_def runes_of_invalid ascii_upper_def RuneError_def string_of_def
        encode_rune_def valid_rune_def char_of_eq_iff)
  show ?thesis
    using Title_first_rune[where up = ascii_upper and s = "''obj''" and ?r0.0 = 111
        and rs = "[98, 106]"] runes_of_obj u t i
    by (simp add: sanitize_def valid_rune_def)
qed

end
